theory Spec2Isabelle
  imports Main "HOL-Library.AList"
begin

section \<open>Values, dictionaries and strings\<close>

text \<open>
  Front-matter values and the values of the JSON manifest: what YAML and JSON give for
  scalars, lists and mappings. Dates are kept apart (the parser normalises the \<open>date\<close>
  key to a date object), so every value of this type survives \<open>json.dump\<close> followed by
  \<open>json.load\<close> unchanged.
\<close>

datatype pyval =
    PNone
  | PBool bool
  | PInt int
  | PStr string
  | PList "pyval list"
  | PDict "(string \<times> pyval) list"

text \<open>
  A Python \<open>dict\<close> with string keys is an association list in insertion order:
  \<open>d[k] = v\<close> is \<open>AList.update k v d\<close> (the value is replaced in place, a new key is
  appended), \<open>k in d\<close> is \<open>map_of d k \<noteq> None\<close>, \<open>d.pop(k, None)\<close> is
  \<open>AList.delete k d\<close>.
\<close>

type_synonym 'v dict = "(string \<times> 'v) list"

text \<open>\<open>d.get(k)\<close> on a dictionary of values: Python's \<open>None\<close> for a missing key.\<close>

definition dget :: "pyval dict \<Rightarrow> string \<Rightarrow> pyval" where
  "dget d k = (case map_of d k of None \<Rightarrow> PNone | Some v \<Rightarrow> v)"

text \<open>Truth value of a Python object, as \<open>if x\<close> and \<open>x and y\<close> test it.\<close>

fun truthy :: "pyval \<Rightarrow> bool" where
  "truthy PNone = False"
| "truthy (PBool b) = b"
| "truthy (PInt i) = (i \<noteq> 0)"
| "truthy (PStr s) = (s \<noteq> [])"
| "truthy (PList xs) = (xs \<noteq> [])"
| "truthy (PDict kvs) = (kvs \<noteq> [])"

text \<open>
  Strings are lists of bytes. \<open>str.lower\<close> is modelled on the ASCII letters (an
  upper-case letter gets the bit of value 32 set); other bytes are left as they are.
\<close>

definition lower_char :: "char \<Rightarrow> char" where
  "lower_char c =
     (if 65 \<le> (of_char c :: nat) \<and> (of_char c :: nat) \<le> 90
      then (case c of Char b0 b1 b2 b3 b4 b5 b6 b7 \<Rightarrow> Char b0 b1 b2 b3 b4 True b6 b7)
      else c)"

definition lower :: "string \<Rightarrow> string" where
  "lower s = map lower_char s"

definition endswith :: "string \<Rightarrow> string \<Rightarrow> bool" where
  "endswith s suf = (length suf \<le> length s \<and> drop (length s - length suf) s = suf)"

definition startswith :: "string \<Rightarrow> string \<Rightarrow> bool" where
  "startswith s pre = (take (length pre) s = pre)"

text \<open>\<open>s.strip('/')\<close>: slashes removed at both ends.\<close>

definition strip_slash :: "string \<Rightarrow> string" where
  "strip_slash s =
     rev (dropWhile (\<lambda>c. c = CHR ''/'') (rev (dropWhile (\<lambda>c. c = CHR ''/'') s)))"

text \<open>\<open>s.split(c)\<close>: never empty, \<open>''''.split('/')\<close> is \<open>['''']\<close>.\<close>

fun split_on :: "char \<Rightarrow> string \<Rightarrow> string list" where
  "split_on c [] = [[]]"
| "split_on c (x # xs) =
     (if x = c then [] # split_on c xs
      else (case split_on c xs of
              [] \<Rightarrow> [[x]]
            | y # ys \<Rightarrow> (x # y) # ys))"

text \<open>\<open>s.replace('\\', '/')\<close>.\<close>

definition replace_backslash :: "string \<Rightarrow> string" where
  "replace_backslash s = map (\<lambda>c. if c = CHR 0x5C then CHR ''/'' else c) s"

section \<open>Paths and the output tree\<close>

text \<open>
  \<open>os.path.join\<close> of \<open>posixpath\<close>: a component that starts with a slash replaces what
  was joined so far; otherwise it is appended, after a slash unless the path is empty or
  ends with one.
\<close>

definition join2 :: "string \<Rightarrow> string \<Rightarrow> string" where
  "join2 path b =
     (if startswith b ''/'' then b
      else if path = [] \<or> endswith path ''/'' then path @ b
      else path @ ''/'' @ b)"

definition path_join :: "string \<Rightarrow> string list \<Rightarrow> string" where
  "path_join a ps = foldl join2 a ps"

text \<open>\<open>os.path.basename\<close>: what follows the last slash.\<close>

definition basename :: "string \<Rightarrow> string" where
  "basename p = rev (takeWhile (\<lambda>c. c \<noteq> CHR ''/'') (rev p))"

text \<open>
  \<open>os.path.splitext(name)[0]\<close> for a name without directory: the name up to its last
  dot, unless only dots come before that dot (or there is no dot).
\<close>

definition splitext_root :: "string \<Rightarrow> string" where
  "splitext_root p =
     (case dropWhile (\<lambda>c. c \<noteq> CHR ''.'') (rev p) of
        [] \<Rightarrow> p
      | d # root_rev \<Rightarrow>
          (if list_ex (\<lambda>c. c \<noteq> CHR ''.'') root_rev then rev root_rev else p))"

text \<open>
  The output tree maps a path, given by its non-empty components, to the kind of node
  found there. The components \<open>.\<close> and \<open>..\<close> and symbolic links are not interpreted.
  All paths of the build are relative to the working directory and start with the build
  directory.
\<close>

datatype node = File | Dir

type_synonym fs = "string list \<Rightarrow> node option"

definition parts :: "string \<Rightarrow> string list" where
  "parts p = filter (\<lambda>s. s \<noteq> []) (split_on (CHR ''/'') p)"

definition path_exists :: "fs \<Rightarrow> string \<Rightarrow> bool" where
  "path_exists t p = (t (parts p) \<noteq> None)"

definition isdir :: "fs \<Rightarrow> string \<Rightarrow> bool" where
  "isdir t p = (t (parts p) = Some Dir)"

text \<open>\<open>shutil.rmtree(p)\<close>: the node and everything below it.\<close>

definition rmtree :: "string \<Rightarrow> fs \<Rightarrow> fs" where
  "rmtree p t = (\<lambda>q. if take (length (parts p)) q = parts p then None else t q)"

text \<open>\<open>os.remove(p)\<close>: removes a file; it raises (here \<open>None\<close>) on a directory and on
  a missing path.\<close>

definition os_remove :: "string \<Rightarrow> fs \<Rightarrow> fs option" where
  "os_remove p t = (if t (parts p) = Some File then Some (t(parts p := None)) else None)"

text \<open>
  \<open>os.makedirs(p, exist_ok=True)\<close>: every leading part of the path becomes a directory;
  it raises (here \<open>None\<close>) when one of them is a file.
\<close>

definition makedirs :: "string \<Rightarrow> fs \<Rightarrow> fs option" where
  "makedirs p t =
     (let ps = parts p in
      if list_ex (\<lambda>n. t (take n ps) = Some File) [1 ..< Suc (length ps)] then None
      else Some (\<lambda>q. if q \<noteq> [] \<and> length q \<le> length ps \<and> take (length q) ps = q
                      then Some Dir else t q))"

text \<open>
  \<open>open(p, 'w')\<close> and \<open>write\<close>: the file exists afterwards; opening a directory raises
  (here \<open>None\<close>). The build writes a file only into a directory that it has just made.
\<close>

definition write_file :: "string \<Rightarrow> fs \<Rightarrow> fs option" where
  "write_file p t = (if t (parts p) = Some Dir then None else Some (t(parts p \<mapsto> File)))"

section \<open>Configuration (config.py)\<close>

definition BUILD_DIR :: string where "BUILD_DIR = ''_site''"
definition POSTS_DIR_NAME :: string where "POSTS_DIR_NAME = ''posts''"
definition ABOUT_PAGE :: string where "ABOUT_PAGE = ''about.md''"

section \<open>Documents and posts\<close>

text \<open>
  The metadata returned by \<open>get_metadata_and_content\<close>, restricted to the keys that the
  build reads; \<open>None\<close> is an absent key. The parser stores \<open>date\<close> as a date (here its
  ordinal, which orders dates as Python does) and \<open>tags\<close> as a list of dictionaries
  with the keys \<open>name\<close> and \<open>slug\<close>, both strings; \<open>status\<close> is taken to be a
  string (\<open>is_post_hidden\<close> calls \<open>lower\<close> on it). When the file cannot be read the
  parser returns the empty dictionary: every field is \<open>None\<close>.
\<close>

type_synonym date = int

record tag =
  name :: string
  tag_slug :: string

record metadata =
  m_slug :: "pyval option"
  m_title :: "pyval option"
  m_date :: "date option"
  m_tags :: "tag list option"
  m_hidden :: "pyval option"
  m_status :: "string option"

text \<open>
  A source file found by \<open>glob\<close>, with what the build computes from it by calls outside
  the build logic: the key \<open>relative_path\<close> (\<open>os.path.relpath\<close>), the result of the
  parser and the footer text of \<open>format_file_mod_time\<close>.
\<close>

record document =
  md_file :: string
  relative_path :: string
  doc_metadata :: metadata
  content_md :: string
  content_html :: string
  toc_html :: string
  mod_time_cn :: string

text \<open>
  The post dictionary \<open>{**metadata, 'content_markdown': ..., 'link': ...}\<close>. The build
  makes one only after it has found \<open>date\<close> and \<open>title\<close> in the metadata, so these
  two are plain fields; \<open>link\<close> is optional because \<open>generate_post_page\<close> reads it with
  \<open>post.get('link')\<close>.
\<close>

record post =
  title :: pyval
  post_date :: date
  post_tags :: "tag list option"
  post_hidden :: "pyval option"
  post_status :: "string option"
  content_markdown :: string
  post_content_html :: string
  post_toc_html :: string
  link :: "string option"
  footer_time_info :: string

section \<open>generator.py\<close>

text \<open>
  \<open>generate_post_page\<close>. The first argument says, for an output path, whether building
  the context and rendering the template for it succeed; every exception inside the
  function is caught there, so a failure leaves the tree as it was at that point.
\<close>

definition post_output_dir :: "string \<Rightarrow> string" where
  "post_output_dir relative_link =
     (let clean_name =
            (if endswith (lower relative_link) ''.html''
             then take (length relative_link - 5) relative_link else relative_link);
          clean_name = strip_slash clean_name
      in path_join BUILD_DIR [clean_name])"

definition generate_post_page :: "(string \<Rightarrow> bool) \<Rightarrow> post \<Rightarrow> fs \<Rightarrow> fs" where
  "generate_post_page renders p t =
     (case link p of
        None \<Rightarrow> t
      | Some relative_link \<Rightarrow>
          if relative_link = [] then t
          else if lower relative_link = ''404.html'' then t
          else
            (let output_dir = post_output_dir relative_link in
             case makedirs output_dir t of
               None \<Rightarrow> t
             | Some t1 \<Rightarrow>
                 (let output_path = path_join output_dir [''index.html''] in
                  if renders output_path
                  then (case write_file output_path t1 of None \<Rightarrow> t1 | Some t2 \<Rightarrow> t2)
                  else t1)))"

text \<open>\<open>generate_page_html\<close>, which writes \<open>BUILD_DIR/page_id/index.html\<close>.\<close>

definition generate_page_html :: "(string \<Rightarrow> bool) \<Rightarrow> string \<Rightarrow> fs \<Rightarrow> fs" where
  "generate_page_html renders page_id t =
     (let output_dir = path_join BUILD_DIR [page_id] in
      case makedirs output_dir t of
        None \<Rightarrow> t
      | Some t1 \<Rightarrow>
          (let output_path = path_join output_dir [''index.html''] in
           if renders output_path
           then (case write_file output_path t1 of None \<Rightarrow> t1 | Some t2 \<Rightarrow> t2)
           else t1))"

section \<open>autobuild.py: the manifest\<close>

text \<open>
  The manifest has the three buckets \<open>posts\<close>, \<open>static_files\<close> and \<open>templates\<close>;
  \<open>None\<close> is a bucket whose key is absent from the JSON object. An entry of \<open>posts\<close>
  is a dictionary of values.
\<close>

record manifest =
  posts :: "(pyval dict) dict option"
  static_files :: "pyval dict option"
  templates :: "pyval dict option"

text \<open>What is found at \<open>MANIFEST_FILE\<close>: nothing, text that is not JSON, or a manifest.\<close>

datatype manifest_file = Missing | Malformed | Stored manifest

text \<open>
  \<open>load_manifest\<close>: \<open>FileNotFoundError\<close> and \<open>json.JSONDecodeError\<close> are caught and
  the empty dictionary \<open>{}\<close> is returned.
\<close>

definition empty_dict_manifest :: manifest where
  "empty_dict_manifest = \<lparr>posts = None, static_files = None, templates = None\<rparr>"

definition load_manifest :: "manifest_file \<Rightarrow> manifest" where
  "load_manifest f =
     (case f of
        Stored m \<Rightarrow> m
      | Missing \<Rightarrow> empty_dict_manifest
      | Malformed \<Rightarrow> empty_dict_manifest)"

text \<open>\<open>save_manifest\<close>; the \<open>IOError\<close> branch, which only prints a warning, is not followed.\<close>

definition save_manifest :: "manifest \<Rightarrow> manifest_file" where
  "save_manifest m = Stored m"

text \<open>\<open>m.get(key, {})\<close> for a bucket, and \<open>m.setdefault(key, {})[k] = v\<close>.\<close>

definition bucket :: "'v dict option \<Rightarrow> 'v dict" where
  "bucket b = (case b of None \<Rightarrow> [] | Some kvs \<Rightarrow> kvs)"

definition bucket_set :: "string \<Rightarrow> 'v \<Rightarrow> 'v dict option \<Rightarrow> 'v dict option" where
  "bucket_set k v b = Some (AList.update k v (bucket b))"

text \<open>\<open>not old_manifest\<close>: the dictionary has no key at all.\<close>

definition manifest_is_empty :: "manifest \<Rightarrow> bool" where
  "manifest_is_empty m = (posts m = None \<and> static_files m = None \<and> templates m = None)"

section \<open>autobuild.py: the build\<close>

text \<open>
  What a run reads from outside: the manifest file, the source tree (\<open>os.path.exists\<close>
  and \<open>get_full_content_hash\<close>, which is the empty string for a file that cannot be
  read), the two \<open>glob\<close> results, the output tree as it is when step [3/5] starts
  (directories ensured, assets copied), whether rendering succeeds for an output path, and
  the two Python built-ins \<open>str\<close> and \<open>date.strftime('%Y-%m-%d')\<close>.
\<close>

record env =
  manifest_file :: manifest_file
  source_exists :: "string \<Rightarrow> bool"
  get_full_content_hash :: "string \<Rightarrow> string"
  markdown_glob :: "document list"
  root_glob :: "document list"
  site_tree :: fs
  renders :: "string \<Rightarrow> bool"
  py_str :: "pyval \<Rightarrow> string"
  strftime_ymd :: "date \<Rightarrow> string"

text \<open>Uncaught exceptions of \<open>build_site\<close>.\<close>

datatype error = KeyError string | AttributeError string

text \<open>
  The calls that change the output: the generator functions as \<open>build_site\<close> calls
  them, the two removals, and the final \<open>save_manifest\<close>. The build-time footer of the
  aggregate pages (the clock) is left out of the arguments.
\<close>

datatype call =
    GeneratePageHtml string pyval string string string
  | GeneratePostPage post
  | GenerateIndexHtml "post list"
  | GenerateArchiveHtml "post list"
  | GenerateTagsListHtml "(post list) dict"
  | GenerateTagPage string "post list"
  | GenerateRobotsTxt
  | WriteSitemap "post list"
  | WriteRss "post list"
  | Rmtree string
  | Remove string
  | SaveManifest manifest

text \<open>
  The local variables of \<open>build_site\<close> that live across its steps. \<open>tree\<close> is the output
  tree as far as the special pages, the post pages and the clean-up change it; the files
  of the aggregate pages (fixed names under the build directory) are not tracked.
\<close>

record build_state =
  new_manifest :: manifest
  theme_changed :: bool
  posts_data_changed :: bool
  parsed_posts :: "post list"
  tag_map :: "(post list) dict"
  posts_to_build :: "post list"
  source_md_paths :: "string set"
  tree :: fs
  calls :: "call list"

definition initial_state :: "env \<Rightarrow> build_state" where
  "initial_state E =
     \<lparr>new_manifest = \<lparr>posts = Some [], static_files = Some [], templates = Some []\<rparr>,
      theme_changed = False,
      posts_data_changed = False,
      parsed_posts = [],
      tag_map = [],
      posts_to_build = [],
      source_md_paths = {},
      tree = site_tree E,
      calls = []\<rparr>"

subsection \<open>[2/5] theme dependencies\<close>

definition css_source :: string where "css_source = ''assets/style.css''"

definition base_template_source :: string where
  "base_template_source = path_join ''templates'' [''base.html'']"

definition CORE_DEPENDENCIES :: "string list" where
  "CORE_DEPENDENCIES =
     [''autobuild.py'', ''parser.py'', ''generator.py'', ''config.py'',
      path_join ''templates'' [''post.html''],
      path_join ''templates'' [''list.html''],
      path_join ''templates'' [''archive.html''],
      path_join ''templates'' [''tags_list.html'']]"

text \<open>\<open>current_hash != old_manifest.get(bucket, {}).get(path)\<close>.\<close>

definition hash_differs :: "env \<Rightarrow> pyval dict option \<Rightarrow> string \<Rightarrow> bool" where
  "hash_differs E old_bucket p =
     (PStr (get_full_content_hash E p) \<noteq> dget (bucket old_bucket) p)"

definition check_css :: "env \<Rightarrow> manifest \<Rightarrow> build_state \<Rightarrow> build_state" where
  "check_css E old_manifest s =
     (if source_exists E css_source then
        (let s1 = (if hash_differs E (static_files old_manifest) css_source
                   then s\<lparr>theme_changed := True\<rparr> else s)
         in s1\<lparr>new_manifest := (new_manifest s1)
                 \<lparr>static_files :=
                    bucket_set css_source (PStr (get_full_content_hash E css_source))
                      (static_files (new_manifest s1))\<rparr>\<rparr>)
      else s)"

definition check_template :: "env \<Rightarrow> manifest \<Rightarrow> build_state \<Rightarrow> string \<Rightarrow> build_state" where
  "check_template E old_manifest s p =
     (if source_exists E p then
        (let s1 = (if hash_differs E (templates old_manifest) p
                   then s\<lparr>theme_changed := True\<rparr> else s)
         in s1\<lparr>new_manifest := (new_manifest s1)
                 \<lparr>templates :=
                    bucket_set p (PStr (get_full_content_hash E p))
                      (templates (new_manifest s1))\<rparr>\<rparr>)
      else s)"

definition check_theme :: "env \<Rightarrow> manifest \<Rightarrow> build_state \<Rightarrow> build_state" where
  "check_theme E old_manifest s =
     foldl (check_template E old_manifest)
       (check_template E old_manifest (check_css E old_manifest s) base_template_source)
       CORE_DEPENDENCIES"

subsection \<open>[3/5] the document loop\<close>

text \<open>\<open>old_manifest.get('posts', {}).get(relative_path, {})\<close>.\<close>

definition old_item_of :: "manifest \<Rightarrow> string \<Rightarrow> pyval dict" where
  "old_item_of old_manifest rp =
     (case map_of (bucket (posts old_manifest)) rp of None \<Rightarrow> [] | Some e \<Rightarrow> e)"

text \<open>\<open>(current_hash != old_item.get('hash')) or ('link' not in old_item)\<close>.\<close>

definition needs_full_build :: "string \<Rightarrow> pyval dict \<Rightarrow> bool" where
  "needs_full_build current_hash old_item =
     (PStr current_hash \<noteq> dget old_item ''hash'' \<or> map_of old_item ''link'' = None)"

definition needs_rebuild_html :: "string \<Rightarrow> pyval dict \<Rightarrow> bool \<Rightarrow> bool" where
  "needs_rebuild_html current_hash old_item theme_chg =
     (needs_full_build current_hash old_item \<or> theme_chg)"

text \<open>The slug: the metadata's, or the file name without its extension; then
  \<open>str(...).lower()\<close>.\<close>

definition doc_slug :: "env \<Rightarrow> document \<Rightarrow> string" where
  "doc_slug E d =
     (let slug_value =
            (case m_slug (doc_metadata d) of
               None \<Rightarrow> PStr (splitext_root (basename (md_file d)))
             | Some v \<Rightarrow> v)
      in lower (py_str E slug_value))"

definition is_404_page :: "env \<Rightarrow> document \<Rightarrow> bool" where
  "is_404_page E d = (doc_slug E d = ''404'' \<or> basename (md_file d) = ''404.md'')"

definition is_about_page :: "env \<Rightarrow> document \<Rightarrow> bool" where
  "is_about_page E d = (doc_slug E d = ''about'' \<or> basename (md_file d) = ABOUT_PAGE)"

text \<open>\<open>new_manifest.setdefault('posts', {})[relative_path] = entry\<close>.\<close>

definition set_post_entry :: "string \<Rightarrow> pyval dict \<Rightarrow> build_state \<Rightarrow> build_state" where
  "set_post_entry rp entry s =
     s\<lparr>new_manifest := (new_manifest s)
         \<lparr>posts := bucket_set rp entry (posts (new_manifest s))\<rparr>\<rparr>"

text \<open>
  A special page (404, about): when its HTML has to be rebuilt, \<open>special_post['title']\<close>
  is read, which raises \<open>KeyError\<close> without a title, and \<open>generate_page_html\<close> is called.
\<close>

definition special_page ::
  "env \<Rightarrow> document \<Rightarrow> string \<Rightarrow> string \<Rightarrow> bool \<Rightarrow> build_state \<Rightarrow> error + build_state" where
  "special_page E d page_id special_link rebuild s =
     (if rebuild then
        (case m_title (doc_metadata d) of
           None \<Rightarrow> Inl (KeyError ''title'')
         | Some t \<Rightarrow>
             Inr (s\<lparr>tree := generate_page_html (renders E) page_id (tree s),
                    calls := calls s @
                      [GeneratePageHtml (content_html d) t page_id special_link
                         (mod_time_cn d)]\<rparr>))
      else Inr s)"

text \<open>Python's \<open>sorted\<close> on strings: by code point, which on UTF-8 bytes is by byte.\<close>

fun str_le :: "string \<Rightarrow> string \<Rightarrow> bool" where
  "str_le [] ys = True"
| "str_le (x # xs) [] = False"
| "str_le (x # xs) (y # ys) =
     ((of_char x :: nat) < of_char y \<or> (x = y \<and> str_le xs ys))"

fun insort_str :: "string \<Rightarrow> string list \<Rightarrow> string list" where
  "insort_str x [] = [x]"
| "insort_str x (y # ys) = (if str_le x y then x # y # ys else y # insort_str x ys)"

definition sorted_strs :: "string list \<Rightarrow> string list" where
  "sorted_strs xs = foldr insort_str xs []"

text \<open>\<open>post.get('tags', [])\<close>.\<close>

definition tags_of :: "post \<Rightarrow> tag list" where
  "tags_of p = (case post_tags p of None \<Rightarrow> [] | Some ts \<Rightarrow> ts)"

definition new_manifest_data :: "env \<Rightarrow> string \<Rightarrow> post \<Rightarrow> string \<Rightarrow> pyval dict" where
  "new_manifest_data E current_hash p post_link =
     [(''hash'', PStr current_hash),
      (''title'', title p),
      (''date_str'', PStr (strftime_ymd E (post_date p))),
      (''link'', PStr post_link),
      (''tags_list'', PList (map PStr (sorted_strs (map name (tags_of p))))),
      (''hidden'', (case post_hidden p of None \<Rightarrow> PBool False | Some v \<Rightarrow> v)),
      (''status'', (case post_status p of None \<Rightarrow> PStr ''published'' | Some st \<Rightarrow> PStr st))]"

text \<open>The loop over \<open>new_manifest_data.items()\<close> that skips \<open>hash\<close> and compares with \<open>str\<close>.\<close>

definition metadata_changed :: "env \<Rightarrow> pyval dict \<Rightarrow> pyval dict \<Rightarrow> bool" where
  "metadata_changed E nmd old_item =
     list_ex (\<lambda>kv. fst kv \<noteq> ''hash'' \<and> py_str E (snd kv) \<noteq> py_str E (dget old_item (fst kv))) nmd"

text \<open>A link that the clean-up code acts on: truthy and not one of the two sentinels.\<close>

definition cleanable_link :: "pyval \<Rightarrow> bool" where
  "cleanable_link l = (truthy l \<and> l \<noteq> PStr ''hidden'' \<and> l \<noteq> PStr ''404.html'')"

text \<open>Clean-up of the old link of a document whose link has changed.\<close>

definition cleanup_old_post :: "string \<Rightarrow> build_state \<Rightarrow> build_state" where
  "cleanup_old_post old_link s =
     (let old_html_path_parts = split_on (CHR ''/'') (strip_slash old_link);
          old_html_dir = path_join BUILD_DIR old_html_path_parts
      in if path_exists (tree s) old_html_dir \<and> isdir (tree s) old_html_dir then
           s\<lparr>tree := rmtree old_html_dir (tree s), calls := calls s @ [Rmtree old_html_dir]\<rparr>
         else if path_exists (tree s) old_html_dir then
           (case os_remove old_html_dir (tree s) of
              None \<Rightarrow> s
            | Some t \<Rightarrow> s\<lparr>tree := t, calls := calls s @ [Remove old_html_dir]\<rparr>)
         else s)"

text \<open>\<open>tag_map[tag_data['name']].append(post)\<close> for every tag of the post.\<close>

definition add_to_tag_map :: "post \<Rightarrow> (post list) dict \<Rightarrow> (post list) dict" where
  "add_to_tag_map p tm =
     foldl (\<lambda>m tg. AList.update (name tg)
                       ((case map_of m (name tg) of None \<Rightarrow> [] | Some ps \<Rightarrow> ps) @ [p]) m)
       tm (tags_of p)"

definition post_link_of :: "string \<Rightarrow> string" where
  "post_link_of slug = replace_backslash (path_join POSTS_DIR_NAME [slug @ ''.html''])"

definition make_post :: "document \<Rightarrow> date \<Rightarrow> pyval \<Rightarrow> string \<Rightarrow> post" where
  "make_post d dt t post_link =
     \<lparr>title = t,
      post_date = dt,
      post_tags = m_tags (doc_metadata d),
      post_hidden = m_hidden (doc_metadata d),
      post_status = m_status (doc_metadata d),
      content_markdown = content_md d,
      post_content_html = content_html d,
      post_toc_html = toc_html d,
      link = Some post_link,
      footer_time_info = mod_time_cn d\<rparr>"

text \<open>An ordinary post: the part of the loop body after the required-field check.\<close>

definition process_post ::
  "env \<Rightarrow> document \<Rightarrow> pyval dict \<Rightarrow> string \<Rightarrow> date \<Rightarrow> pyval \<Rightarrow> build_state
     \<Rightarrow> error + build_state" where
  "process_post E d old_item current_hash dt t s =
     (let needs_full = needs_full_build current_hash old_item;
          post_link = post_link_of (doc_slug E d);
          p = make_post d dt t post_link;
          nmd = new_manifest_data E current_hash p post_link;
          meta_changed = metadata_changed E nmd old_item;
          needs_rebuild_list = (needs_full \<or> meta_changed);
          s1 = (if meta_changed \<and> \<not> needs_full then s\<lparr>posts_data_changed := True\<rparr> else s);
          s2 = (if needs_rebuild_list \<and> \<not> needs_full
                then s1\<lparr>posts_data_changed := True\<rparr> else s1);
          old_link = dget old_item ''link''
      in case (if cleanable_link old_link \<and> old_link \<noteq> PStr post_link then
                 (case old_link of
                    PStr l \<Rightarrow> Inr (cleanup_old_post l s2)
                  | _ \<Rightarrow> Inl (AttributeError ''strip''))
               else Inr s2) of
           Inl e \<Rightarrow> Inl e
         | Inr s3 \<Rightarrow>
             (let s4 = set_post_entry (relative_path d) nmd
                         (s3\<lparr>tag_map := add_to_tag_map p (tag_map s3),
                             parsed_posts := parsed_posts s3 @ [p]\<rparr>)
              in Inr (if needs_rebuild_html current_hash old_item (theme_changed s)
                      then s4\<lparr>posts_to_build := posts_to_build s4 @ [p]\<rparr> else s4)))"

text \<open>The body of the loop over \<open>md_files\<close>.\<close>

definition process_doc :: "env \<Rightarrow> manifest \<Rightarrow> document \<Rightarrow> build_state \<Rightarrow> error + build_state" where
  "process_doc E old_manifest d s0 =
     (let s = s0\<lparr>source_md_paths := insert (relative_path d) (source_md_paths s0)\<rparr>;
          current_hash = get_full_content_hash E (md_file d);
          old_item = old_item_of old_manifest (relative_path d);
          rebuild = needs_rebuild_html current_hash old_item (theme_changed s)
      in if is_404_page E d then
           (case special_page E d ''404'' ''404.html'' rebuild s of
              Inl e \<Rightarrow> Inl e
            | Inr s1 \<Rightarrow>
                Inr (set_post_entry (relative_path d)
                       [(''hash'', PStr current_hash), (''link'', PStr ''404.html'')] s1))
         else if m_hidden (doc_metadata d) = Some (PBool True) then
           (case (if is_about_page E d
                  then special_page E d ''about'' ''about.html'' rebuild s else Inr s) of
              Inl e \<Rightarrow> Inl e
            | Inr s1 \<Rightarrow>
                Inr (set_post_entry (relative_path d)
                       [(''hash'', PStr current_hash), (''link'', PStr ''hidden'')] s1))
         else
           (case m_date (doc_metadata d) of
              None \<Rightarrow> Inr s
            | Some dt \<Rightarrow>
                (case m_title (doc_metadata d) of
                   None \<Rightarrow> Inr s
                 | Some t \<Rightarrow> process_post E d old_item current_hash dt t s)))"

fun process_docs ::
  "env \<Rightarrow> manifest \<Rightarrow> document list \<Rightarrow> build_state \<Rightarrow> error + build_state" where
  "process_docs E old_manifest [] s = Inr s"
| "process_docs E old_manifest (d # ds) s =
     (case process_doc E old_manifest d s of
        Inl e \<Rightarrow> Inl e
      | Inr s1 \<Rightarrow> process_docs E old_manifest ds s1)"

subsection \<open>Deleted source files\<close>

text \<open>
  \<open>set(old_manifest.get('posts', {}).keys()) - source_md_paths\<close>. Python leaves the
  order of a set open; the model takes the keys in the order of the old manifest.
\<close>

definition deleted_paths :: "manifest \<Rightarrow> build_state \<Rightarrow> string list" where
  "deleted_paths old_manifest s =
     filter (\<lambda>k. k \<notin> source_md_paths s) (remdups (map fst (bucket (posts old_manifest))))"

definition cleanup_deleted :: "string \<Rightarrow> build_state \<Rightarrow> build_state" where
  "cleanup_deleted deleted_link s =
     (let deleted_html_path_parts = split_on (CHR ''/'') (strip_slash deleted_link);
          deleted_html_dir = path_join BUILD_DIR deleted_html_path_parts
      in if path_exists (tree s) deleted_html_dir \<and> isdir (tree s) deleted_html_dir then
           s\<lparr>tree := rmtree deleted_html_dir (tree s),
             calls := calls s @ [Rmtree deleted_html_dir]\<rparr>
         else
           (let deleted_html_file = path_join BUILD_DIR [strip_slash deleted_link]
            in if path_exists (tree s) deleted_html_file then
                 (case os_remove deleted_html_file (tree s) of
                    None \<Rightarrow> s
                  | Some t \<Rightarrow> s\<lparr>tree := t, calls := calls s @ [Remove deleted_html_file]\<rparr>)
               else s))"

definition delete_path :: "manifest \<Rightarrow> string \<Rightarrow> build_state \<Rightarrow> error + build_state" where
  "delete_path old_manifest deleted_path s =
     (let item = old_item_of old_manifest deleted_path;
          deleted_link = dget item ''link'';
          s1 = s\<lparr>posts_data_changed := True\<rparr>
      in if cleanable_link deleted_link then
           (case deleted_link of
              PStr l \<Rightarrow>
                (let s2 = cleanup_deleted l s1
                 in Inr (s2\<lparr>new_manifest := (new_manifest s2)
                           \<lparr>posts := map_option (AList.delete deleted_path)
                                       (posts (new_manifest s2))\<rparr>\<rparr>))
            | _ \<Rightarrow> Inl (AttributeError ''strip''))
         else Inr s1)"

fun delete_paths :: "manifest \<Rightarrow> string list \<Rightarrow> build_state \<Rightarrow> error + build_state" where
  "delete_paths old_manifest [] s = Inr s"
| "delete_paths old_manifest (k # ks) s =
     (case delete_path old_manifest k s of
        Inl e \<Rightarrow> Inl e
      | Inr s1 \<Rightarrow> delete_paths old_manifest ks s1)"

subsection \<open>[5/5] generation\<close>

text \<open>\<open>sorted(posts, key=lambda p: p['date'], reverse=True)\<close>: stable, so posts of one
  date keep their order.\<close>

definition sorted_by_date_desc :: "post list \<Rightarrow> post list" where
  "sorted_by_date_desc ps = rev (sort_key post_date (rev ps))"

definition final_parsed_posts :: "build_state \<Rightarrow> post list" where
  "final_parsed_posts s = sorted_by_date_desc (parsed_posts s)"

definition posts_to_build_all :: "build_state \<Rightarrow> post list" where
  "posts_to_build_all s = (if theme_changed s then final_parsed_posts s else posts_to_build s)"

text \<open>\<open>not old_manifest or posts_data_changed or theme_changed\<close>.\<close>

definition rebuild_lists :: "manifest \<Rightarrow> build_state \<Rightarrow> bool" where
  "rebuild_lists old_manifest s =
     (manifest_is_empty old_manifest \<or> posts_data_changed s \<or> theme_changed s)"

definition aggregate_calls :: "build_state \<Rightarrow> call list" where
  "aggregate_calls s =
     [GenerateIndexHtml (final_parsed_posts s),
      GenerateArchiveHtml (final_parsed_posts s),
      GenerateTagsListHtml (tag_map s)]
     @ map (\<lambda>kv. GenerateTagPage (fst kv) (sorted_by_date_desc (snd kv))) (tag_map s)
     @ [GenerateRobotsTxt,
        WriteSitemap (final_parsed_posts s),
        WriteRss (final_parsed_posts s)]"

definition generate_html :: "env \<Rightarrow> manifest \<Rightarrow> build_state \<Rightarrow> build_state" where
  "generate_html E old_manifest s =
     s\<lparr>tree := foldl (\<lambda>t p. generate_post_page (renders E) p t) (tree s) (posts_to_build_all s),
       calls := calls s
         @ map GeneratePostPage (posts_to_build_all s)
         @ (if rebuild_lists old_manifest s then aggregate_calls s else [])
         @ [SaveManifest (new_manifest s)]\<rparr>"

subsection \<open>build_site\<close>

text \<open>\<open>md_files\<close>: \<open>markdown/*.md\<close>, or \<open>*.md\<close> when that is empty.\<close>

definition md_files :: "env \<Rightarrow> document list" where
  "md_files E = (if markdown_glob E = [] then root_glob E else markdown_glob E)"

text \<open>
  Steps [2/5] and [3/5] with the removal of deleted sources. The injection of the
  previous/next navigation in step [4/5] adds two keys to the posts, which the build logic
  does not read; it is not part of the model.
\<close>

definition run_documents :: "env \<Rightarrow> error + build_state" where
  "run_documents E =
     (let old_manifest = load_manifest (manifest_file E);
          s = check_theme E old_manifest (initial_state E)
      in case process_docs E old_manifest (md_files E) s of
           Inl e \<Rightarrow> Inl e
         | Inr s1 \<Rightarrow> delete_paths old_manifest (deleted_paths old_manifest s1) s1)"

definition build_site :: "env \<Rightarrow> error + build_state" where
  "build_site E =
     (case run_documents E of
        Inl e \<Rightarrow> Inl e
      | Inr s \<Rightarrow> Inr (generate_html E (load_manifest (manifest_file E)) s))"

text \<open>The manifest file after a run that reached \<open>save_manifest\<close>.\<close>

definition manifest_file_after :: "build_state \<Rightarrow> manifest_file" where
  "manifest_file_after s = save_manifest (new_manifest s)"

section \<open>Reading a run\<close>

text \<open>The posts handed to \<open>generate_post_page\<close>, in the order of the calls.\<close>

definition post_pages :: "call list \<Rightarrow> post list" where
  "post_pages cs = concat (map (\<lambda>c. case c of GeneratePostPage p \<Rightarrow> [p] | _ \<Rightarrow> []) cs)"

text \<open>The calls that remove something from the output tree.\<close>

definition is_removal :: "call \<Rightarrow> bool" where
  "is_removal c = (case c of Rmtree p \<Rightarrow> True | Remove p \<Rightarrow> True | _ \<Rightarrow> False)"

text \<open>
  The entry that the loop body of \<open>process_doc\<close> stores under the document's path, by
  the branch the document takes; \<open>None\<close> for a document that is skipped.
\<close>

definition doc_entry :: "env \<Rightarrow> document \<Rightarrow> pyval dict option" where
  "doc_entry E d =
     (let current_hash = get_full_content_hash E (md_file d) in
      if is_404_page E d then
        Some [(''hash'', PStr current_hash), (''link'', PStr ''404.html'')]
      else if m_hidden (doc_metadata d) = Some (PBool True) then
        Some [(''hash'', PStr current_hash), (''link'', PStr ''hidden'')]
      else
        (case m_date (doc_metadata d) of
           None \<Rightarrow> None
         | Some dt \<Rightarrow>
             (case m_title (doc_metadata d) of
                None \<Rightarrow> None
              | Some t \<Rightarrow>
                  Some (new_manifest_data E current_hash
                          (make_post d dt t (post_link_of (doc_slug E d)))
                          (post_link_of (doc_slug E d))))))"

definition add_entry :: "env \<Rightarrow> manifest \<Rightarrow> document \<Rightarrow> manifest" where
  "add_entry E m d =
     (case doc_entry E d of
        None \<Rightarrow> m
      | Some e \<Rightarrow> m\<lparr>posts := bucket_set (relative_path d) e (posts m)\<rparr>)"

text \<open>What the theme check stores in the new manifest, whatever the old manifest holds.\<close>

definition record_css :: "env \<Rightarrow> manifest \<Rightarrow> manifest" where
  "record_css E m =
     (if source_exists E css_source
      then m\<lparr>static_files :=
               bucket_set css_source (PStr (get_full_content_hash E css_source)) (static_files m)\<rparr>
      else m)"

definition record_template :: "env \<Rightarrow> manifest \<Rightarrow> string \<Rightarrow> manifest" where
  "record_template E m p =
     (if source_exists E p
      then m\<lparr>templates := bucket_set p (PStr (get_full_content_hash E p)) (templates m)\<rparr>
      else m)"

text \<open>
  The theme dependency set: the stylesheet, the base template and the core files, with
  the bucket of the old manifest in which the hash of each is looked up.
\<close>

definition theme_dependency :: "string \<Rightarrow> bool" where
  "theme_dependency p =
     (p = css_source \<or> p = base_template_source \<or> p \<in> set CORE_DEPENDENCIES)"

definition old_dependency_bucket :: "manifest \<Rightarrow> string \<Rightarrow> pyval dict option" where
  "old_dependency_bucket old_manifest p =
     (if p = css_source then static_files old_manifest else templates old_manifest)"

definition theme_manifest :: "env \<Rightarrow> manifest \<Rightarrow> manifest" where
  "theme_manifest E m =
     foldl (record_template E) (record_template E (record_css E m) base_template_source)
       CORE_DEPENDENCIES"

text \<open>The manifest that a build stores, as the sources alone determine it.\<close>

definition manifest_of_sources :: "env \<Rightarrow> manifest" where
  "manifest_of_sources E =
     foldl (add_entry E)
       (theme_manifest E \<lparr>posts = Some [], static_files = Some [], templates = Some []\<rparr>)
       (md_files E)"

text \<open>The special pages: the documents that reach \<open>generate_page_html\<close>.\<close>

definition is_special_page :: "env \<Rightarrow> document \<Rightarrow> bool" where
  "is_special_page E d =
     (is_404_page E d \<or> (m_hidden (doc_metadata d) = Some (PBool True) \<and> is_about_page E d))"

section \<open>Sample inputs\<close>

text \<open>
  Python's \<open>str\<close> on the values of the examples: strings of printable ASCII without
  quotes and backslashes, numbers, booleans, \<open>None\<close>, lists and dictionaries of these.
\<close>

fun digits :: "nat \<Rightarrow> string" where
  "digits n =
     (if n < 10 then [char_of (48 + n)]
      else digits (n div 10) @ [char_of (48 + n mod 10)])"

fun join_comma :: "string list \<Rightarrow> string" where
  "join_comma [] = []"
| "join_comma [x] = x"
| "join_comma (x # y # ys) = x @ '', '' @ join_comma (y # ys)"

fun repr_ascii :: "pyval \<Rightarrow> string" where
  "repr_ascii PNone = ''None''"
| "repr_ascii (PBool b) = (if b then ''True'' else ''False'')"
| "repr_ascii (PInt i) = (if i < 0 then ''-'' @ digits (nat (- i)) else digits (nat i))"
| "repr_ascii (PStr s) = [CHR 0x27] @ s @ [CHR 0x27]"
| "repr_ascii (PList xs) = ''['' @ join_comma (map repr_ascii xs) @ '']''"
| "repr_ascii (PDict kvs) =
     ''{'' @ join_comma
              (map (\<lambda>kv. [CHR 0x27] @ fst kv @ [CHR 0x27] @ '': '' @ repr_ascii (snd kv)) kvs)
       @ ''}''"

definition str_ascii :: "pyval \<Rightarrow> string" where
  "str_ascii v = (case v of PStr s \<Rightarrow> s | _ \<Rightarrow> repr_ascii v)"

text \<open>\<open>strftime('%Y-%m-%d')\<close> on the two dates of the examples, 1 and 2 January 2024
  (ordinals 738886 and 738887).\<close>

definition sample_strftime :: "date \<Rightarrow> string" where
  "sample_strftime d =
     (if d = 738886 then ''2024-01-01'' else if d = 738887 then ''2024-01-02'' else [])"

text \<open>The document \<open>markdown/nm.md\<close> with title \<open>nm\<close>, the given slug and date, no tags.\<close>

definition sample_doc :: "string \<Rightarrow> string \<Rightarrow> date \<Rightarrow> document" where
  "sample_doc nm slug dt =
     \<lparr>md_file = ''markdown/'' @ nm @ ''.md'',
      relative_path = ''markdown/'' @ nm @ ''.md'',
      doc_metadata =
        \<lparr>m_slug = Some (PStr slug), m_title = Some (PStr nm), m_date = Some dt,
         m_tags = Some [], m_hidden = None, m_status = None\<rparr>,
      content_md = ''text of '' @ nm,
      content_html = ''<p>text of '' @ nm @ ''</p>'',
      toc_html = [],
      mod_time_cn = []\<rparr>"

text \<open>A document that could not be read: the parser's empty result.\<close>

definition unreadable_doc :: "string \<Rightarrow> document" where
  "unreadable_doc nm =
     \<lparr>md_file = ''markdown/'' @ nm @ ''.md'',
      relative_path = ''markdown/'' @ nm @ ''.md'',
      doc_metadata =
        \<lparr>m_slug = None, m_title = None, m_date = None,
         m_tags = None, m_hidden = None, m_status = None\<rparr>,
      content_md = [],
      content_html = [],
      toc_html = [],
      mod_time_cn = []\<rparr>"

text \<open>Hashes stand for themselves; the files in \<open>changed\<close> have their second version.\<close>

definition sample_hash :: "string list \<Rightarrow> string \<Rightarrow> string" where
  "sample_hash changed p =
     (if p = ''autobuild.py'' then ''c0de''
      else ''hash '' @ (if p \<in> set changed then ''2'' else ''1'') @ '' of '' @ p)"

text \<open>A source tree in which \<open>autobuild.py\<close> is the one theme dependency that exists.\<close>

definition sample_env :: "manifest_file \<Rightarrow> string list \<Rightarrow> document list \<Rightarrow> fs \<Rightarrow> env" where
  "sample_env mf changed docs t =
     \<lparr>manifest_file = mf,
      source_exists = (\<lambda>p. p = ''autobuild.py''),
      get_full_content_hash = sample_hash changed,
      markdown_glob = docs,
      root_glob = [],
      site_tree = t,
      renders = (\<lambda>p. True),
      py_str = str_ascii,
      strftime_ymd = sample_strftime\<rparr>"

text \<open>The manifest entry that a build stores for \<open>sample_doc nm slug\<close> with date string \<open>ds\<close>.\<close>

definition sample_entry :: "string \<Rightarrow> string \<Rightarrow> string \<Rightarrow> pyval dict" where
  "sample_entry nm slug ds =
     [(''hash'', PStr (''hash 1 of markdown/'' @ nm @ ''.md'')),
      (''title'', PStr nm),
      (''date_str'', PStr ds),
      (''link'', PStr (''posts/'' @ slug @ ''.html'')),
      (''tags_list'', PList []),
      (''hidden'', PBool False),
      (''status'', PStr ''published'')]"

definition sample_manifest :: "string \<Rightarrow> (pyval dict) dict \<Rightarrow> manifest" where
  "sample_manifest code_hash ps =
     \<lparr>posts = Some ps,
      static_files = Some [],
      templates = Some [(''autobuild.py'', PStr code_hash)]\<rparr>"

definition sample_tree :: "string list list \<Rightarrow> string list list \<Rightarrow> fs" where
  "sample_tree dirs files =
     (\<lambda>q. if q \<in> set dirs then Some Dir else if q \<in> set files then Some File else None)"

definition sample_post :: "string option \<Rightarrow> post" where
  "sample_post l =
     \<lparr>title = PStr ''a'', post_date = 738886, post_tags = Some [], post_hidden = None,
      post_status = None, content_markdown = ''text of a'',
      post_content_html = ''<p>text of a</p>'', post_toc_html = [], link = l,
      footer_time_info = []\<rparr>"

definition doc_a :: document where "doc_a = sample_doc ''a'' ''a'' 738886"
definition doc_b :: document where "doc_b = sample_doc ''b'' ''b'' 738887"

definition entry_a :: "pyval dict" where "entry_a = sample_entry ''a'' ''a'' ''2024-01-01''"
definition entry_b :: "pyval dict" where "entry_b = sample_entry ''b'' ''b'' ''2024-01-02''"

text \<open>The output tree after a build of the two documents \<open>a\<close> and \<open>b\<close>.\<close>

definition tree_ab :: fs where
  "tree_ab =
     sample_tree
       [[''_site''], [''_site'', ''posts''], [''_site'', ''posts'', ''a''],
        [''_site'', ''posts'', ''b'']]
       [[''_site'', ''posts'', ''a'', ''index.html''],
        [''_site'', ''posts'', ''b'', ''index.html'']]"

text \<open>
  A later build in which nothing has changed but \<open>markdown/b.md\<close> is new: the old
  manifest knows \<open>a\<close> only.
\<close>

definition env_added :: env where
  "env_added =
     sample_env (Stored (sample_manifest ''c0de'' [(''markdown/a.md'', entry_a)])) []
       [doc_a, doc_b] tree_ab"

text \<open>A later build after \<open>markdown/b.md\<close> has been deleted.\<close>

definition env_deleted :: env where
  "env_deleted =
     sample_env
       (Stored (sample_manifest ''c0de'' [(''markdown/a.md'', entry_a), (''markdown/b.md'', entry_b)]))
       [] [doc_a] tree_ab"

text \<open>
  A later build after the slug of \<open>markdown/a.md\<close> has been changed from \<open>a\<close> to
  \<open>a2\<close> in its front matter (so the file has new bytes).
\<close>

definition env_renamed :: env where
  "env_renamed =
     sample_env
       (Stored (sample_manifest ''c0de'' [(''markdown/a.md'', entry_a), (''markdown/b.md'', entry_b)]))
       [''markdown/a.md''] [sample_doc ''a'' ''a2'' 738886, doc_b] tree_ab"

text \<open>A later build after \<open>autobuild.py\<close> has changed and no document has.\<close>

definition env_theme :: env where
  "env_theme =
     sample_env (Stored (sample_manifest ''0ld'' [(''markdown/a.md'', entry_a)])) []
       [doc_a] tree_ab"

text \<open>A first build: no manifest file.\<close>

definition env_first :: env where
  "env_first = sample_env Missing [] [doc_a, doc_b] (sample_tree [[''_site'']] [])"

section \<open>The staleness classifier\<close>


lemmas sample_defs =
  sample_env_def sample_manifest_def sample_entry_def sample_doc_def sample_tree_def
  sample_hash_def sample_strftime_def str_ascii_def doc_a_def doc_b_def entry_a_def
  entry_b_def tree_ab_def sample_post_def unreadable_doc_def


section \<open>Post pages without a real link\<close>

text \<open>
  Claim C10. For a post whose \<open>link\<close> is absent, empty, or equal to \<open>404.html\<close> when
  lower-cased, \<open>generate_post_page\<close> returns with the output tree as it was: no directory
  is made and no file is written. So a post page is generated only for a post with a
  real link.
\<close>

theorem generate_post_page_without_link:
  assumes "link p = None \<or> link p = Some [] \<or> (\<exists>l. link p = Some l \<and> lower l = ''404.html'')"
  shows "generate_post_page rnd p t = t"
  using assms by (auto simp: generate_post_page_def)

theorem generate_post_page_without_link_witness:
  "lower ''404.HTML'' = ''404.html''
   \<and> generate_post_page (\<lambda>p. True) (sample_post (Some ''404.HTML'')) tree_ab = tree_ab"
  using generate_post_page_without_link [of "sample_post (Some ''404.HTML'')" "\<lambda>p. True" tree_ab]
  by (simp add: sample_post_def lower_def lower_char_def)

text \<open>With a real link the page is written below the link without its \<open>.html\<close>.\<close>

lemma generate_post_page_writes:
  "generate_post_page (\<lambda>p. True) (sample_post (Some ''posts/a.html'')) (\<lambda>q. None)
     [''_site'', ''posts'', ''a'', ''index.html''] = Some File"
  by (simp add: generate_post_page_def sample_post_def lower_def lower_char_def
      post_output_dir_def endswith_def strip_slash_def path_join_def join2_def startswith_def
      BUILD_DIR_def makedirs_def parts_def write_file_def Let_def)

section \<open>Effects of the steps of a run\<close>

subsection \<open>What the steps of the loop leave alone\<close>

lemma post_pages_append [simp]: "post_pages (xs @ ys) = post_pages xs @ post_pages ys"
  by (simp add: post_pages_def)

lemma post_pages_simps [simp]:
  "post_pages [] = []"
  "post_pages (GeneratePostPage p # cs) = p # post_pages cs"
  "post_pages (GeneratePageHtml a b c d e # cs) = post_pages cs"
  "post_pages (Rmtree q # cs) = post_pages cs"
  "post_pages (Remove q # cs) = post_pages cs"
  "post_pages (SaveManifest m # cs) = post_pages cs"
  by (simp_all add: post_pages_def)

lemma post_pages_map [simp]: "post_pages (map GeneratePostPage ps) = ps"
  by (induction ps) simp_all

lemma post_pages_aggregate [simp]: "post_pages (aggregate_calls s) = []"
  by (simp add: aggregate_calls_def post_pages_def comp_def)

lemma cleanup_old_post_frame [simp]:
  "new_manifest (cleanup_old_post l s) = new_manifest s"
  "theme_changed (cleanup_old_post l s) = theme_changed s"
  "posts_data_changed (cleanup_old_post l s) = posts_data_changed s"
  "parsed_posts (cleanup_old_post l s) = parsed_posts s"
  "tag_map (cleanup_old_post l s) = tag_map s"
  "posts_to_build (cleanup_old_post l s) = posts_to_build s"
  "source_md_paths (cleanup_old_post l s) = source_md_paths s"
  "post_pages (calls (cleanup_old_post l s)) = post_pages (calls s)"
  by (simp_all add: cleanup_old_post_def Let_def split: option.splits)

lemma cleanup_deleted_frame [simp]:
  "new_manifest (cleanup_deleted l s) = new_manifest s"
  "theme_changed (cleanup_deleted l s) = theme_changed s"
  "posts_data_changed (cleanup_deleted l s) = posts_data_changed s"
  "parsed_posts (cleanup_deleted l s) = parsed_posts s"
  "tag_map (cleanup_deleted l s) = tag_map s"
  "posts_to_build (cleanup_deleted l s) = posts_to_build s"
  "source_md_paths (cleanup_deleted l s) = source_md_paths s"
  "post_pages (calls (cleanup_deleted l s)) = post_pages (calls s)"
  by (simp_all add: cleanup_deleted_def Let_def split: option.splits)

lemma set_post_entry_frame [simp]:
  "new_manifest (set_post_entry rp e s)
     = (new_manifest s)\<lparr>posts := bucket_set rp e (posts (new_manifest s))\<rparr>"
  "theme_changed (set_post_entry rp e s) = theme_changed s"
  "posts_data_changed (set_post_entry rp e s) = posts_data_changed s"
  "parsed_posts (set_post_entry rp e s) = parsed_posts s"
  "tag_map (set_post_entry rp e s) = tag_map s"
  "posts_to_build (set_post_entry rp e s) = posts_to_build s"
  "source_md_paths (set_post_entry rp e s) = source_md_paths s"
  "tree (set_post_entry rp e s) = tree s"
  "calls (set_post_entry rp e s) = calls s"
  by (simp_all add: set_post_entry_def)

lemma special_page_frame:
  assumes "special_page E d pid l r s = Inr s'"
  shows "new_manifest s' = new_manifest s"
    and "theme_changed s' = theme_changed s"
    and "posts_data_changed s' = posts_data_changed s"
    and "parsed_posts s' = parsed_posts s"
    and "tag_map s' = tag_map s"
    and "posts_to_build s' = posts_to_build s"
    and "source_md_paths s' = source_md_paths s"
    and "post_pages (calls s') = post_pages (calls s)"
  using assms by (auto simp: special_page_def split: if_splits option.splits)

lemma process_post_frame:
  assumes "process_post E d old_item h dt t s = Inr s'"
  shows "new_manifest s'
           = (new_manifest s)\<lparr>posts :=
                bucket_set (relative_path d)
                  (new_manifest_data E h (make_post d dt t (post_link_of (doc_slug E d)))
                     (post_link_of (doc_slug E d)))
                  (posts (new_manifest s))\<rparr>"
    and "theme_changed s' = theme_changed s"
    and "source_md_paths s' = source_md_paths s"
    and "post_pages (calls s') = post_pages (calls s)"
  using assms
  by (auto simp: process_post_def Let_def split: if_splits sum.splits pyval.splits)

lemma process_doc_effect:
  assumes "process_doc E old_manifest d s = Inr s'"
  shows "new_manifest s' = add_entry E (new_manifest s) d"
    and "theme_changed s' = theme_changed s"
    and "source_md_paths s' = insert (relative_path d) (source_md_paths s)"
    and "post_pages (calls s') = post_pages (calls s)"
  using assms
  by (auto simp: process_doc_def add_entry_def doc_entry_def Let_def
      dest: special_page_frame process_post_frame
      split: if_splits sum.splits option.splits)

lemma process_docs_effect:
  assumes "process_docs E old_manifest ds s = Inr s'"
  shows "new_manifest s' = foldl (add_entry E) (new_manifest s) ds"
    and "theme_changed s' = theme_changed s"
    and "source_md_paths s' = source_md_paths s \<union> relative_path ` set ds"
    and "post_pages (calls s') = post_pages (calls s)"
proof -
  have "new_manifest s' = foldl (add_entry E) (new_manifest s) ds
        \<and> theme_changed s' = theme_changed s
        \<and> source_md_paths s' = source_md_paths s \<union> relative_path ` set ds
        \<and> post_pages (calls s') = post_pages (calls s)"
    using assms
  proof (induction ds arbitrary: s)
    case Nil
    then show ?case by simp
  next
    case (Cons d ds)
    then obtain s1 where d: "process_doc E old_manifest d s = Inr s1"
      and ds: "process_docs E old_manifest ds s1 = Inr s'"
      by (auto split: sum.splits)
    from Cons.IH [OF ds] process_doc_effect [OF d] show ?case by auto
  qed
  then show "new_manifest s' = foldl (add_entry E) (new_manifest s) ds"
    and "theme_changed s' = theme_changed s"
    and "source_md_paths s' = source_md_paths s \<union> relative_path ` set ds"
    and "post_pages (calls s') = post_pages (calls s)"
    by simp_all
qed

subsection \<open>The keys of the new manifest\<close>

lemma bucket_set_keys:
  "fst ` set (bucket (bucket_set k v b)) = insert k (fst ` set (bucket b))"
  by (simp add: bucket_set_def bucket_def dom_update)

lemma add_entry_keys:
  "fst ` set (bucket (posts (add_entry E m d)))
     \<subseteq> insert (relative_path d) (fst ` set (bucket (posts m)))"
  by (auto simp: add_entry_def bucket_set_keys split: option.splits)

lemma add_entries_keys:
  "fst ` set (bucket (posts (foldl (add_entry E) m ds)))
     \<subseteq> fst ` set (bucket (posts m)) \<union> relative_path ` set ds"
proof (induction ds arbitrary: m)
  case Nil
  show ?case by simp
next
  case (Cons d ds)
  have "fst ` set (bucket (posts (foldl (add_entry E) (add_entry E m d) ds)))
          \<subseteq> fst ` set (bucket (posts (add_entry E m d))) \<union> relative_path ` set ds"
    by (rule Cons.IH)
  with add_entry_keys [of E m d] show ?case by simp blast
qed

lemma add_entry_other_buckets [simp]:
  "static_files (add_entry E m d) = static_files m"
  "templates (add_entry E m d) = templates m"
  by (simp_all add: add_entry_def split: option.splits)

lemma add_entries_other_buckets [simp]:
  "static_files (foldl (add_entry E) m ds) = static_files m"
  "templates (foldl (add_entry E) m ds) = templates m"
  by (induction ds arbitrary: m) simp_all

lemma add_entries_posts_Some:
  "posts m \<noteq> None \<Longrightarrow> posts (foldl (add_entry E) m ds) \<noteq> None"
  by (induction ds arbitrary: m) (auto simp: add_entry_def bucket_set_def split: option.splits)

subsection \<open>Removal of deleted sources\<close>

lemma bucket_delete_keys:
  "fst ` set (bucket (map_option (AList.delete k) b)) \<subseteq> fst ` set (bucket b)"
  by (cases b) (simp_all add: bucket_def dom_delete_subset)

lemma bucket_delete_id:
  "k \<notin> fst ` set (bucket b) \<Longrightarrow> map_option (AList.delete k) b = b"
  by (cases b) (simp_all add: bucket_def)

lemma delete_path_cases:
  assumes "delete_path old_manifest k s = Inr s'"
  obtains (sentinel) "s' = s\<lparr>posts_data_changed := True\<rparr>"
  | (cleaned) l where
      "s' = (cleanup_deleted l (s\<lparr>posts_data_changed := True\<rparr>))
              \<lparr>new_manifest := (new_manifest s)
                 \<lparr>posts := map_option (AList.delete k) (posts (new_manifest s))\<rparr>\<rparr>"
  using assms
  by (auto simp: delete_path_def Let_def split: if_splits pyval.splits)

lemma delete_path_effect:
  assumes "delete_path old_manifest k s = Inr s'"
  shows "theme_changed s' = theme_changed s"
    and "post_pages (calls s') = post_pages (calls s)"
    and "posts_data_changed s'"
    and "parsed_posts s' = parsed_posts s"
    and "posts_to_build s' = posts_to_build s"
    and "tag_map s' = tag_map s"
    and "static_files (new_manifest s') = static_files (new_manifest s)"
    and "templates (new_manifest s') = templates (new_manifest s)"
    and "fst ` set (bucket (posts (new_manifest s')))
           \<subseteq> fst ` set (bucket (posts (new_manifest s)))"
    and "(posts (new_manifest s') = None) = (posts (new_manifest s) = None)"
    and "k \<notin> fst ` set (bucket (posts (new_manifest s))) \<Longrightarrow> new_manifest s' = new_manifest s"
  using assms
  by (cases rule: delete_path_cases; simp add: bucket_delete_keys bucket_delete_id)+

lemma delete_paths_effect:
  assumes "delete_paths old_manifest ks s = Inr s'"
  shows "theme_changed s' = theme_changed s"
    and "post_pages (calls s') = post_pages (calls s)"
    and "posts_data_changed s' = (posts_data_changed s \<or> ks \<noteq> [])"
    and "parsed_posts s' = parsed_posts s"
    and "posts_to_build s' = posts_to_build s"
    and "tag_map s' = tag_map s"
    and "static_files (new_manifest s') = static_files (new_manifest s)"
    and "templates (new_manifest s') = templates (new_manifest s)"
    and "fst ` set (bucket (posts (new_manifest s')))
           \<subseteq> fst ` set (bucket (posts (new_manifest s)))"
    and "(posts (new_manifest s') = None) = (posts (new_manifest s) = None)"
proof -
  have "theme_changed s' = theme_changed s
        \<and> post_pages (calls s') = post_pages (calls s)
        \<and> posts_data_changed s' = (posts_data_changed s \<or> ks \<noteq> [])
        \<and> parsed_posts s' = parsed_posts s
        \<and> posts_to_build s' = posts_to_build s
        \<and> tag_map s' = tag_map s
        \<and> static_files (new_manifest s') = static_files (new_manifest s)
        \<and> templates (new_manifest s') = templates (new_manifest s)
        \<and> fst ` set (bucket (posts (new_manifest s')))
              \<subseteq> fst ` set (bucket (posts (new_manifest s)))
        \<and> (posts (new_manifest s') = None) = (posts (new_manifest s) = None)"
    using assms
  proof (induction ks arbitrary: s)
    case Nil
    then show ?case by simp
  next
    case (Cons k ks)
    then obtain s1 where a: "delete_path old_manifest k s = Inr s1"
      and b: "delete_paths old_manifest ks s1 = Inr s'"
      by (auto split: sum.splits)
    have "fst ` set (bucket (posts (new_manifest s')))
            \<subseteq> fst ` set (bucket (posts (new_manifest s)))"
      using Cons.IH [OF b] delete_path_effect(9) [OF a] by blast
    with Cons.IH [OF b] delete_path_effect(1-8,10) [OF a] show ?case by simp
  qed
  then show "theme_changed s' = theme_changed s"
    and "post_pages (calls s') = post_pages (calls s)"
    and "posts_data_changed s' = (posts_data_changed s \<or> ks \<noteq> [])"
    and "parsed_posts s' = parsed_posts s"
    and "posts_to_build s' = posts_to_build s"
    and "tag_map s' = tag_map s"
    and "static_files (new_manifest s') = static_files (new_manifest s)"
    and "templates (new_manifest s') = templates (new_manifest s)"
    and "fst ` set (bucket (posts (new_manifest s')))
           \<subseteq> fst ` set (bucket (posts (new_manifest s)))"
    and "(posts (new_manifest s') = None) = (posts (new_manifest s) = None)"
    by simp_all
qed

lemma delete_paths_manifest:
  assumes "delete_paths old_manifest ks s = Inr s'"
      and "\<forall>k \<in> set ks. k \<notin> fst ` set (bucket (posts (new_manifest s)))"
  shows "new_manifest s' = new_manifest s"
  using assms
proof (induction ks arbitrary: s)
  case Nil
  then show ?case by simp
next
  case (Cons k ks)
  from Cons.prems(1) obtain s1 where a: "delete_path old_manifest k s = Inr s1"
    and b: "delete_paths old_manifest ks s1 = Inr s'" by (auto split: sum.splits)
  from Cons.prems(2) have "k \<notin> fst ` set (bucket (posts (new_manifest s)))" by simp
  then have eq: "new_manifest s1 = new_manifest s" by (rule delete_path_effect(11) [OF a])
  with Cons.prems(2) have "\<forall>k \<in> set ks. k \<notin> fst ` set (bucket (posts (new_manifest s1)))"
    by simp
  from Cons.IH [OF b this] eq show ?case by simp
qed

subsection \<open>The theme check\<close>

lemma check_css_effect:
  "new_manifest (check_css E old_manifest s) = record_css E (new_manifest s)"
  "theme_changed (check_css E old_manifest s)
     = (theme_changed s
        \<or> (source_exists E css_source \<and> hash_differs E (static_files old_manifest) css_source))"
  "posts_data_changed (check_css E old_manifest s) = posts_data_changed s"
  "parsed_posts (check_css E old_manifest s) = parsed_posts s"
  "tag_map (check_css E old_manifest s) = tag_map s"
  "posts_to_build (check_css E old_manifest s) = posts_to_build s"
  "source_md_paths (check_css E old_manifest s) = source_md_paths s"
  "tree (check_css E old_manifest s) = tree s"
  "calls (check_css E old_manifest s) = calls s"
  by (simp_all add: check_css_def record_css_def Let_def)

lemma check_template_effect:
  "new_manifest (check_template E old_manifest s p) = record_template E (new_manifest s) p"
  "theme_changed (check_template E old_manifest s p)
     = (theme_changed s \<or> (source_exists E p \<and> hash_differs E (templates old_manifest) p))"
  "posts_data_changed (check_template E old_manifest s p) = posts_data_changed s"
  "parsed_posts (check_template E old_manifest s p) = parsed_posts s"
  "tag_map (check_template E old_manifest s p) = tag_map s"
  "posts_to_build (check_template E old_manifest s p) = posts_to_build s"
  "source_md_paths (check_template E old_manifest s p) = source_md_paths s"
  "tree (check_template E old_manifest s p) = tree s"
  "calls (check_template E old_manifest s p) = calls s"
  by (simp_all add: check_template_def record_template_def Let_def)

lemma check_templates_manifest:
  "new_manifest (foldl (check_template E old_manifest) s ps)
     = foldl (record_template E) (new_manifest s) ps"
  by (induction ps arbitrary: s) (simp_all add: check_template_effect)

lemma check_templates_theme:
  "theme_changed (foldl (check_template E old_manifest) s ps)
     = (theme_changed s
        \<or> (\<exists>p \<in> set ps. source_exists E p \<and> hash_differs E (templates old_manifest) p))"
  by (induction ps arbitrary: s) (auto simp: check_template_effect)

lemma check_templates_frame:
  "posts_data_changed (foldl (check_template E old_manifest) s ps) = posts_data_changed s
   \<and> parsed_posts (foldl (check_template E old_manifest) s ps) = parsed_posts s
   \<and> tag_map (foldl (check_template E old_manifest) s ps) = tag_map s
   \<and> posts_to_build (foldl (check_template E old_manifest) s ps) = posts_to_build s
   \<and> source_md_paths (foldl (check_template E old_manifest) s ps) = source_md_paths s
   \<and> tree (foldl (check_template E old_manifest) s ps) = tree s
   \<and> calls (foldl (check_template E old_manifest) s ps) = calls s"
  by (induction ps arbitrary: s) (simp_all add: check_template_effect)

lemma old_dependency_bucket_simps:
  "old_dependency_bucket old_manifest css_source = static_files old_manifest"
  "old_dependency_bucket old_manifest base_template_source = templates old_manifest"
  "p \<in> set CORE_DEPENDENCIES \<Longrightarrow> old_dependency_bucket old_manifest p = templates old_manifest"
proof -
  have css: "css_source \<noteq> base_template_source" "css_source \<notin> set CORE_DEPENDENCIES"
    by (simp_all add: css_source_def base_template_source_def CORE_DEPENDENCIES_def
        path_join_def join2_def startswith_def endswith_def)
  show "old_dependency_bucket old_manifest css_source = static_files old_manifest"
    by (simp add: old_dependency_bucket_def)
  show "old_dependency_bucket old_manifest base_template_source = templates old_manifest"
    using css(1) by (simp add: old_dependency_bucket_def)
  show "old_dependency_bucket old_manifest p = templates old_manifest"
    if "p \<in> set CORE_DEPENDENCIES"
    using css(2) that by (auto simp: old_dependency_bucket_def)
qed

lemma theme_dependency_split:
  "(\<exists>p. theme_dependency p \<and> source_exists E p
         \<and> hash_differs E (old_dependency_bucket old_manifest p) p)
   \<longleftrightarrow> (source_exists E css_source \<and> hash_differs E (static_files old_manifest) css_source)
       \<or> (source_exists E base_template_source
            \<and> hash_differs E (templates old_manifest) base_template_source)
       \<or> (\<exists>p \<in> set CORE_DEPENDENCIES.
             source_exists E p \<and> hash_differs E (templates old_manifest) p)"
  (is "?L \<longleftrightarrow> ?C \<or> ?B \<or> ?D")
proof
  assume ?L
  then obtain p where p: "theme_dependency p" "source_exists E p"
    "hash_differs E (old_dependency_bucket old_manifest p) p" by blast
  from p(1) consider "p = css_source" | "p = base_template_source" | "p \<in> set CORE_DEPENDENCIES"
    by (auto simp: theme_dependency_def)
  then show "?C \<or> ?B \<or> ?D"
  proof cases
    case 1
    with p have ?C by (simp add: old_dependency_bucket_simps)
    then show ?thesis ..
  next
    case 2
    with p have ?B by (simp add: old_dependency_bucket_simps)
    then show ?thesis by blast
  next
    case 3
    with p have ?D by (auto simp: old_dependency_bucket_simps)
    then show ?thesis by blast
  qed
next
  assume "?C \<or> ?B \<or> ?D"
  then consider ?C | ?B | ?D by blast
  then show ?L
  proof cases
    case 1
    then have "theme_dependency css_source \<and> source_exists E css_source
         \<and> hash_differs E (old_dependency_bucket old_manifest css_source) css_source"
      by (simp add: old_dependency_bucket_simps theme_dependency_def)
    then show ?thesis ..
  next
    case 2
    then have "theme_dependency base_template_source \<and> source_exists E base_template_source
         \<and> hash_differs E (old_dependency_bucket old_manifest base_template_source)
              base_template_source"
      by (simp add: old_dependency_bucket_simps theme_dependency_def)
    then show ?thesis ..
  next
    case 3
    then obtain p where "p \<in> set CORE_DEPENDENCIES" "source_exists E p"
      "hash_differs E (templates old_manifest) p" by blast
    then have "theme_dependency p \<and> source_exists E p
         \<and> hash_differs E (old_dependency_bucket old_manifest p) p"
      by (simp add: old_dependency_bucket_simps theme_dependency_def)
    then show ?thesis ..
  qed
qed

lemma check_theme_effect:
  "new_manifest (check_theme E old_manifest s) = theme_manifest E (new_manifest s)"
  "theme_changed (check_theme E old_manifest s)
     = (theme_changed s
        \<or> (\<exists>p. theme_dependency p \<and> source_exists E p
                \<and> hash_differs E (old_dependency_bucket old_manifest p) p))"
  "posts_data_changed (check_theme E old_manifest s) = posts_data_changed s"
  "parsed_posts (check_theme E old_manifest s) = parsed_posts s"
  "tag_map (check_theme E old_manifest s) = tag_map s"
  "posts_to_build (check_theme E old_manifest s) = posts_to_build s"
  "source_md_paths (check_theme E old_manifest s) = source_md_paths s"
  "tree (check_theme E old_manifest s) = tree s"
  "calls (check_theme E old_manifest s) = calls s"
proof -
  show "theme_changed (check_theme E old_manifest s)
     = (theme_changed s
        \<or> (\<exists>p. theme_dependency p \<and> source_exists E p
                \<and> hash_differs E (old_dependency_bucket old_manifest p) p))"
    unfolding theme_dependency_split
    by (simp add: check_theme_def check_templates_theme check_template_effect check_css_effect)
qed (simp_all add: check_theme_def theme_manifest_def check_templates_manifest
     check_templates_frame check_template_effect check_css_effect)

lemma theme_manifest_posts [simp]: "posts (theme_manifest E m) = posts m"
proof -
  have a: "\<And>m ps. posts (foldl (record_template E) m ps) = posts m"
    subgoal for m ps by (induction ps arbitrary: m) (simp_all add: record_template_def)
    done
  show ?thesis by (simp add: theme_manifest_def a record_template_def record_css_def)
qed

subsection \<open>The run up to the generation step\<close>

lemma initial_state_simps [simp]:
  "new_manifest (initial_state E) = \<lparr>posts = Some [], static_files = Some [], templates = Some []\<rparr>"
  "theme_changed (initial_state E) = False"
  "posts_data_changed (initial_state E) = False"
  "parsed_posts (initial_state E) = []"
  "tag_map (initial_state E) = []"
  "posts_to_build (initial_state E) = []"
  "source_md_paths (initial_state E) = {}"
  "tree (initial_state E) = site_tree E"
  "calls (initial_state E) = []"
  by (simp_all add: initial_state_def)

lemma run_documents_cases:
  assumes "run_documents E = Inr s"
  obtains s1 where
    "process_docs E (load_manifest (manifest_file E)) (md_files E)
       (check_theme E (load_manifest (manifest_file E)) (initial_state E)) = Inr s1"
    and "delete_paths (load_manifest (manifest_file E))
           (deleted_paths (load_manifest (manifest_file E)) s1) s1 = Inr s"
  using assms by (auto simp: run_documents_def Let_def split: sum.splits)

lemma run_documents_effect:
  assumes "run_documents E = Inr s"
  shows "theme_changed s
           = (\<exists>p. theme_dependency p \<and> source_exists E p
                  \<and> hash_differs E (old_dependency_bucket (load_manifest (manifest_file E)) p) p)"
    and "post_pages (calls s) = []"
    and "fst ` set (bucket (posts (new_manifest s))) \<subseteq> relative_path ` set (md_files E)"
proof -
  let ?old = "load_manifest (manifest_file E)"
  let ?s0 = "check_theme E ?old (initial_state E)"
  from assms obtain s1 where
    docs: "process_docs E ?old (md_files E) ?s0 = Inr s1"
    and del: "delete_paths ?old (deleted_paths ?old s1) s1 = Inr s"
    by (rule run_documents_cases)
  show "theme_changed s
           = (\<exists>p. theme_dependency p \<and> source_exists E p
                  \<and> hash_differs E (old_dependency_bucket ?old p) p)"
    using delete_paths_effect(1) [OF del] process_docs_effect(2) [OF docs]
    by (simp add: check_theme_effect)
  show "post_pages (calls s) = []"
    using delete_paths_effect(2) [OF del] process_docs_effect(4) [OF docs]
    by (simp add: check_theme_effect)
  have "fst ` set (bucket (posts (new_manifest s1))) \<subseteq> relative_path ` set (md_files E)"
    using add_entries_keys [of E "new_manifest ?s0" "md_files E"] process_docs_effect(1) [OF docs]
    by (simp add: check_theme_effect bucket_def)
  with delete_paths_effect(9) [OF del]
  show "fst ` set (bucket (posts (new_manifest s))) \<subseteq> relative_path ` set (md_files E)"
    by blast
qed

lemma build_site_cases:
  assumes "build_site E = Inr s"
  obtains s1 where "run_documents E = Inr s1"
    and "s = generate_html E (load_manifest (manifest_file E)) s1"
  using assms by (auto simp: build_site_def split: sum.splits)

lemma generate_html_frame [simp]:
  "new_manifest (generate_html E old_manifest s) = new_manifest s"
  "theme_changed (generate_html E old_manifest s) = theme_changed s"
  "posts_data_changed (generate_html E old_manifest s) = posts_data_changed s"
  "parsed_posts (generate_html E old_manifest s) = parsed_posts s"
  "tag_map (generate_html E old_manifest s) = tag_map s"
  "posts_to_build (generate_html E old_manifest s) = posts_to_build s"
  "final_parsed_posts (generate_html E old_manifest s) = final_parsed_posts s"
  by (simp_all add: generate_html_def final_parsed_posts_def)

lemma generate_html_post_pages:
  "post_pages (calls (generate_html E old_manifest s))
     = post_pages (calls s) @ posts_to_build_all s"
  by (simp add: generate_html_def)

section \<open>The saved manifest holds discovered documents only\<close>

text \<open>
  Claim C9. The keys of the \<open>posts\<close> mapping of the manifest that a run saves are
  relative paths of source documents discovered in that run: the new manifest starts
  with an empty \<open>posts\<close> mapping, only the loop over the discovered documents adds
  entries, and the removal of deleted sources only takes entries away. The saved manifest
  is the argument of the final \<open>save_manifest\<close> call.
\<close>

theorem saved_posts_are_discovered:
  assumes "build_site E = Inr s"
  shows "fst ` set (bucket (posts (new_manifest s))) \<subseteq> relative_path ` set (md_files E)
         \<and> last (calls s) = SaveManifest (new_manifest s)
         \<and> manifest_file_after s = Stored (new_manifest s)"
proof -
  from assms obtain s1 where run: "run_documents E = Inr s1"
    and s: "s = generate_html E (load_manifest (manifest_file E)) s1"
    by (rule build_site_cases)
  have "last (calls s) = SaveManifest (new_manifest s)"
    by (simp add: s generate_html_def)
  with run_documents_effect(3) [OF run] show ?thesis
    by (simp add: s manifest_file_after_def save_manifest_def)
qed

theorem saved_posts_are_discovered_witness:
  "\<exists>s. build_site env_deleted = Inr s
       \<and> fst ` set (bucket (posts (new_manifest s))) \<subseteq> relative_path ` set (md_files env_deleted)
       \<and> ''markdown/b.md'' \<notin> fst ` set (bucket (posts (new_manifest s)))"
proof -
  have "\<not> isl (build_site env_deleted)" by code_simp
  then obtain s where s: "build_site env_deleted = Inr s" by (cases "build_site env_deleted") auto
  from saved_posts_are_discovered [OF s]
  have sub: "fst ` set (bucket (posts (new_manifest s))) \<subseteq> relative_path ` set (md_files env_deleted)"
    by simp
  have "relative_path ` set (md_files env_deleted) = {''markdown/a.md''}"
    by (simp add: env_deleted_def md_files_def sample_defs)
  with sub s show ?thesis by auto
qed

section \<open>A theme change rebuilds every post page\<close>

text \<open>
  Claim C2. If a member of the theme dependency set (the stylesheet, the base template,
  a per-page template or a core source file) exists and its hash differs from the one
  stored in the old manifest, then \<open>theme_changed\<close> is true for the run, every
  document of the run needs its HTML rebuilt, and the posts handed to
  \<open>generate_post_page\<close> are all parsed posts (\<open>final_parsed_posts\<close>), whether or not
  their content hash has changed.
\<close>

theorem theme_change_rebuilds_every_post:
  assumes "theme_dependency p"
      and "source_exists E p"
      and "hash_differs E (old_dependency_bucket (load_manifest (manifest_file E)) p) p"
      and "build_site E = Inr s"
  shows "theme_changed s
         \<and> (\<forall>d \<in> set (md_files E).
               needs_rebuild_html (get_full_content_hash E (md_file d))
                 (old_item_of (load_manifest (manifest_file E)) (relative_path d))
                 (theme_changed s))
         \<and> post_pages (calls s) = final_parsed_posts s"
proof -
  from assms(4) obtain s1 where run: "run_documents E = Inr s1"
    and s: "s = generate_html E (load_manifest (manifest_file E)) s1"
    by (rule build_site_cases)
  have changed: "theme_changed s1"
    using run_documents_effect(1) [OF run] assms(1-3) by blast
  then have "posts_to_build_all s1 = final_parsed_posts s1"
    by (simp add: posts_to_build_all_def)
  then have "post_pages (calls s) = final_parsed_posts s"
    using run_documents_effect(2) [OF run] by (simp add: s generate_html_post_pages)
  with changed show ?thesis
    by (simp add: s needs_rebuild_html_def)
qed

theorem theme_change_rebuilds_every_post_witness:
  "\<exists>s. build_site env_theme = Inr s
       \<and> \<not> needs_full_build (get_full_content_hash env_theme (md_file doc_a))
             (old_item_of (load_manifest (manifest_file env_theme)) (relative_path doc_a))
       \<and> theme_changed s
       \<and> post_pages (calls s) = [sample_post (Some ''posts/a.html'')]"
proof -
  have dep: "theme_dependency ''autobuild.py''"
    by (simp add: theme_dependency_def CORE_DEPENDENCIES_def)
  have ex: "source_exists env_theme ''autobuild.py''"
    by (simp add: env_theme_def sample_defs)
  have diff: "hash_differs env_theme
      (old_dependency_bucket (load_manifest (manifest_file env_theme)) ''autobuild.py'')
      ''autobuild.py''"
    by (simp add: env_theme_def sample_defs hash_differs_def old_dependency_bucket_def
        load_manifest_def css_source_def bucket_def dget_def)
  have "\<not> isl (build_site env_theme)" by code_simp
  then obtain s where s: "build_site env_theme = Inr s"
    by (cases "build_site env_theme") auto
  have unchanged: "\<not> needs_full_build (get_full_content_hash env_theme (md_file doc_a))
             (old_item_of (load_manifest (manifest_file env_theme)) (relative_path doc_a))"
    by (simp add: env_theme_def sample_defs needs_full_build_def old_item_of_def
        load_manifest_def bucket_def dget_def)
  have "map_sum id final_parsed_posts (build_site env_theme)
          = Inr [sample_post (Some ''posts/a.html'')]"
    by code_simp
  with s have "final_parsed_posts s = [sample_post (Some ''posts/a.html'')]" by simp
  with theme_change_rebuilds_every_post [OF dep ex diff s] s unchanged show ?thesis by simp
qed

section \<open>Documents without a required field\<close>

text \<open>
  Claim C8. A document whose metadata lacks \<open>date\<close> or \<open>title\<close>, and which is neither
  the 404 page nor a hidden about page, is left out silently: the loop body ends without
  an exception, no generator is called and nothing is removed, the output tree is as
  before, and the document is added neither to the parsed posts, the tag map and the
  posts to build, nor does it raise the flag for the list pages. The 404 page and the
  hidden about page are the documents that are handled before the check.
\<close>

theorem missing_required_field_excluded:
  assumes "m_date (doc_metadata d) = None \<or> m_title (doc_metadata d) = None"
      and "\<not> is_special_page E d"
  shows "\<exists>s'. process_doc E old_manifest d s = Inr s'
           \<and> calls s' = calls s
           \<and> tree s' = tree s
           \<and> parsed_posts s' = parsed_posts s
           \<and> tag_map s' = tag_map s
           \<and> posts_to_build s' = posts_to_build s
           \<and> posts_data_changed s' = posts_data_changed s"
  using assms
  by (auto simp: process_doc_def is_special_page_def Let_def split: option.splits)

theorem missing_required_field_excluded_witness:
  "m_title (doc_metadata (unreadable_doc ''x'')) = None
   \<and> \<not> is_special_page env_first (unreadable_doc ''x'')
   \<and> (\<exists>s'. process_doc env_first (load_manifest (manifest_file env_first)) (unreadable_doc ''x'')
              (initial_state env_first) = Inr s'
           \<and> calls s' = [] \<and> parsed_posts s' = [] \<and> posts_to_build s' = [])"
proof -
  have a: "m_date (doc_metadata (unreadable_doc ''x'')) = None
           \<or> m_title (doc_metadata (unreadable_doc ''x'')) = None"
    by (simp add: sample_defs)
  have b: "\<not> is_special_page env_first (unreadable_doc ''x'')"
    by (simp add: is_special_page_def is_404_page_def doc_slug_def
        env_first_def sample_defs basename_def splitext_root_def lower_def lower_char_def)
  from missing_required_field_excluded [OF a b, of "load_manifest (manifest_file env_first)"
      "initial_state env_first"]
  show ?thesis using b by (auto simp: sample_defs)
qed

text \<open>
  The two kinds of special page are handled before the check: a 404 page without a date
  is rendered when its HTML is stale, and so is a hidden about page.
\<close>

lemma special_page_bypasses_check:
  assumes "is_special_page E d"
      and "m_date (doc_metadata d) = None"
      and "m_title (doc_metadata d) = Some t"
      and "needs_rebuild_html (get_full_content_hash E (md_file d))
             (old_item_of old_manifest (relative_path d)) (theme_changed s)"
  shows "\<exists>s' pid l. process_doc E old_manifest d s = Inr s'
           \<and> calls s' = calls s @ [GeneratePageHtml (content_html d) t pid l (mod_time_cn d)]"
  using assms
  by (auto simp: process_doc_def is_special_page_def special_page_def Let_def)

section \<open>A missing or malformed manifest\<close>



lemma old_item_of_empty [simp]: "old_item_of empty_dict_manifest rp = []"
  by (simp add: old_item_of_def empty_dict_manifest_def bucket_def)

lemma needs_full_build_no_entry [simp]: "needs_full_build h []"
  by (simp add: needs_full_build_def)






lemma deleted_paths_empty [simp]: "deleted_paths empty_dict_manifest s = []"
  by (simp add: deleted_paths_def empty_dict_manifest_def bucket_def)



section \<open>A second build without changes\<close>

subsection \<open>The new manifest does not depend on the old one\<close>

lemma doc_slug_env [simp]:
  "doc_slug (E\<lparr>manifest_file := mf, site_tree := t\<rparr>) d = doc_slug E d"
  by (simp add: doc_slug_def)

lemma is_404_page_env [simp]:
  "is_404_page (E\<lparr>manifest_file := mf, site_tree := t\<rparr>) d = is_404_page E d"
  by (simp add: is_404_page_def)

lemma new_manifest_data_env [simp]:
  "new_manifest_data (E\<lparr>manifest_file := mf, site_tree := t\<rparr>) h p l = new_manifest_data E h p l"
  by (simp add: new_manifest_data_def)

lemma doc_entry_env [simp]:
  "doc_entry (E\<lparr>manifest_file := mf, site_tree := t\<rparr>) d = doc_entry E d"
  by (simp add: doc_entry_def Let_def cong: option.case_cong)

lemma env_update_simps [simp]:
  "md_files (E\<lparr>manifest_file := mf, site_tree := t\<rparr>) = md_files E"
  "hash_differs (E\<lparr>manifest_file := mf, site_tree := t\<rparr>) b p = hash_differs E b p"
  "record_css (E\<lparr>manifest_file := mf, site_tree := t\<rparr>) m = record_css E m"
  "record_template (E\<lparr>manifest_file := mf, site_tree := t\<rparr>) m p = record_template E m p"
  by (simp_all add: md_files_def hash_differs_def record_css_def record_template_def)

lemma add_entry_env [simp]:
  "add_entry (E\<lparr>manifest_file := mf, site_tree := t\<rparr>) = add_entry E"
  by (rule ext, rule ext) (simp add: add_entry_def)

lemma theme_manifest_env [simp]:
  "theme_manifest (E\<lparr>manifest_file := mf, site_tree := t\<rparr>) m = theme_manifest E m"
proof -
  have "record_template (E\<lparr>manifest_file := mf, site_tree := t\<rparr>) = record_template E"
    by (rule ext, rule ext) simp
  then show ?thesis by (simp add: theme_manifest_def)
qed

subsection \<open>Looking up what a build has stored\<close>

lemma add_entry_lookup:
  "map_of (bucket (posts (add_entry E m d))) rp
     = (if rp = relative_path d
        then (case doc_entry E d of
                None \<Rightarrow> map_of (bucket (posts m)) rp
              | Some e \<Rightarrow> Some e)
        else map_of (bucket (posts m)) rp)"
  by (simp add: add_entry_def bucket_set_def bucket_def update_conv' split: option.splits)

lemma add_entries_lookup_other:
  "rp \<notin> relative_path ` set ds \<Longrightarrow>
     map_of (bucket (posts (foldl (add_entry E) m ds))) rp = map_of (bucket (posts m)) rp"
  by (induction ds arbitrary: m) (simp_all add: add_entry_lookup)

lemma add_entries_lookup:
  assumes "distinct (map relative_path ds)" and "d \<in> set ds"
  shows "map_of (bucket (posts (foldl (add_entry E) m ds))) (relative_path d)
           = (case doc_entry E d of
                None \<Rightarrow> map_of (bucket (posts m)) (relative_path d)
              | Some e \<Rightarrow> Some e)"
  using assms
proof (induction ds arbitrary: m)
  case Nil
  then show ?case by simp
next
  case (Cons x xs)
  show ?case
  proof (cases "d = x")
    case True
    from Cons.prems(1) have "relative_path x \<notin> relative_path ` set xs" by simp
    then show ?thesis
      unfolding True by (simp add: add_entries_lookup_other add_entry_lookup)
  next
    case False
    with Cons.prems have d: "d \<in> set xs" and dist: "distinct (map relative_path xs)"
      and notin: "relative_path x \<notin> relative_path ` set xs" by auto
    from d have "relative_path d \<in> relative_path ` set xs" by (rule imageI)
    with notin have ne: "relative_path d \<noteq> relative_path x" by metis
    from Cons.IH [OF dist d, of "add_entry E m x"] ne show ?thesis
      by (simp add: add_entry_lookup cong: option.case_cong)
  qed
qed

lemma record_template_lookup:
  "map_of (bucket (templates (record_template E m x))) p
     = (if p = x \<and> source_exists E x then Some (PStr (get_full_content_hash E p))
        else map_of (bucket (templates m)) p)"
  by (simp add: record_template_def bucket_set_def bucket_def update_conv')

lemma record_templates_static [simp]:
  "static_files (foldl (record_template E) m ps) = static_files m"
  by (induction ps arbitrary: m) (simp_all add: record_template_def)

lemma record_templates_lookup:
  "map_of (bucket (templates (foldl (record_template E) m ps))) p
     = (if p \<in> set ps \<and> source_exists E p then Some (PStr (get_full_content_hash E p))
        else map_of (bucket (templates m)) p)"
  by (induction ps arbitrary: m) (auto simp: record_template_lookup)

lemma theme_manifest_lookup:
  assumes "theme_dependency p" and "source_exists E p"
  shows "\<not> hash_differs E (old_dependency_bucket (theme_manifest E m) p) p"
proof -
  from assms(1) consider "p = css_source" | "p = base_template_source"
    | "p \<in> set CORE_DEPENDENCIES"
    by (auto simp: theme_dependency_def)
  then show ?thesis
  proof cases
    case 1
    then show ?thesis
      using assms(2)
      by (simp add: old_dependency_bucket_simps theme_manifest_def hash_differs_def dget_def
          record_template_def record_css_def bucket_set_def bucket_def update_conv')
  next
    case 2
    then show ?thesis
      using assms(2)
      by (simp add: old_dependency_bucket_simps theme_manifest_def hash_differs_def dget_def
          record_templates_lookup record_template_lookup)
  next
    case 3
    then show ?thesis
      using assms(2)
      by (simp add: old_dependency_bucket_simps theme_manifest_def hash_differs_def dget_def
          record_templates_lookup)
  qed
qed

subsection \<open>A document whose entry is the one a build stores for it\<close>

lemma new_manifest_data_facts:
  "dget (new_manifest_data E h p l) ''hash'' = PStr h"
  "dget (new_manifest_data E h p l) ''link'' = PStr l"
  "map_of (new_manifest_data E h p l) ''link'' = Some (PStr l)"
  "\<not> metadata_changed E (new_manifest_data E h p l) (new_manifest_data E h p l)"
  by (simp_all add: new_manifest_data_def dget_def metadata_changed_def)

lemma unchanged_doc:
  assumes "map_of (bucket (posts old_manifest)) (relative_path d) = doc_entry E d"
      and "\<not> theme_changed s"
  shows "\<exists>s'. process_doc E old_manifest d s = Inr s'
           \<and> calls s' = calls s
           \<and> tree s' = tree s
           \<and> posts_data_changed s' = posts_data_changed s
           \<and> posts_to_build s' = posts_to_build s"
proof -
  have item: "old_item_of old_manifest (relative_path d)
                = (case doc_entry E d of None \<Rightarrow> [] | Some e \<Rightarrow> e)"
    by (simp add: old_item_of_def assms(1))
  show ?thesis
  proof (cases "is_404_page E d")
    case True
    then show ?thesis
      using assms(2)
      by (simp add: process_doc_def item doc_entry_def needs_rebuild_html_def
          needs_full_build_def dget_def special_page_def Let_def)
  next
    case not404: False
    show ?thesis
    proof (cases "m_hidden (doc_metadata d) = Some (PBool True)")
      case True
      then show ?thesis
        using assms(2) not404
        by (simp add: process_doc_def item doc_entry_def needs_rebuild_html_def
            needs_full_build_def dget_def special_page_def Let_def)
    next
      case False
      show ?thesis
      proof (cases "m_date (doc_metadata d)")
        case None
        then show ?thesis using not404 False by (simp add: process_doc_def Let_def)
      next
        case (Some dt)
        show ?thesis
        proof (cases "m_title (doc_metadata d)")
          case None
          then show ?thesis using not404 False Some by (simp add: process_doc_def Let_def)
        next
          case title: (Some t)
          then show ?thesis
            using not404 False Some assms(2)
            by (simp add: process_doc_def item doc_entry_def process_post_def
                new_manifest_data_facts needs_rebuild_html_def needs_full_build_def
                cleanable_link_def Let_def)
        qed
      qed
    qed
  qed
qed

lemma unchanged_docs:
  assumes "\<forall>d \<in> set ds. map_of (bucket (posts old_manifest)) (relative_path d) = doc_entry E d"
      and "\<not> theme_changed s"
  shows "\<exists>s'. process_docs E old_manifest ds s = Inr s'
           \<and> calls s' = calls s
           \<and> tree s' = tree s
           \<and> posts_data_changed s' = posts_data_changed s
           \<and> posts_to_build s' = posts_to_build s"
  using assms
proof (induction ds arbitrary: s)
  case Nil
  show ?case by simp
next
  case (Cons d ds)
  from Cons.prems have "map_of (bucket (posts old_manifest)) (relative_path d) = doc_entry E d"
    by simp
  from unchanged_doc [OF this Cons.prems(2)] obtain s1 where
    d: "process_doc E old_manifest d s = Inr s1"
    and same: "calls s1 = calls s" "tree s1 = tree s"
      "posts_data_changed s1 = posts_data_changed s" "posts_to_build s1 = posts_to_build s"
    by blast
  from process_doc_effect(2) [OF d] Cons.prems(2) have "\<not> theme_changed s1" by simp
  with Cons.IH [of s1] Cons.prems(1) obtain s' where
    "process_docs E old_manifest ds s1 = Inr s'" "calls s' = calls s1" "tree s' = tree s1"
    "posts_data_changed s' = posts_data_changed s1" "posts_to_build s' = posts_to_build s1"
    by auto
  with d same show ?case by simp
qed

subsection \<open>The manifest of a build, from the sources alone\<close>

lemma manifest_of_sources_keys:
  "fst ` set (bucket (posts (manifest_of_sources E))) \<subseteq> relative_path ` set (md_files E)"
  using add_entries_keys [of E "theme_manifest E \<lparr>posts = Some [], static_files = Some [],
      templates = Some []\<rparr>" "md_files E"]
  by (simp add: manifest_of_sources_def bucket_def)

lemma build_site_manifest:
  assumes "build_site E = Inr s"
  shows "new_manifest s = manifest_of_sources E"
proof -
  let ?old = "load_manifest (manifest_file E)"
  from assms obtain s1 where run: "run_documents E = Inr s1"
    and s: "s = generate_html E ?old s1"
    by (rule build_site_cases)
  from run obtain sa where
    docs: "process_docs E ?old (md_files E) (check_theme E ?old (initial_state E)) = Inr sa"
    and del: "delete_paths ?old (deleted_paths ?old sa) sa = Inr s1"
    by (rule run_documents_cases)
  have sa: "new_manifest sa = manifest_of_sources E"
    using process_docs_effect(1) [OF docs]
    by (simp add: check_theme_effect manifest_of_sources_def)
  have paths: "source_md_paths sa = relative_path ` set (md_files E)"
    using process_docs_effect(3) [OF docs] by (simp add: check_theme_effect)
  have "\<forall>k \<in> set (deleted_paths ?old sa). k \<notin> fst ` set (bucket (posts (new_manifest sa)))"
    using manifest_of_sources_keys [of E] by (auto simp: deleted_paths_def paths sa)
  from delete_paths_manifest [OF del this] sa show ?thesis by (simp add: s)
qed

text \<open>
  Claim C4. Let a build end without exception, with distinct paths of the discovered
  documents (as \<open>glob\<close> gives them). A second build that finds the manifest saved by the
  first one and the same sources, on any output tree, ends without exception with the
  same manifest, so that the same manifest file is written; its only call is
  \<open>save_manifest\<close>: no post page, no special page and no aggregate page is generated, and
  nothing is removed; the output tree is left as it was found.
\<close>

theorem second_build_is_idle:
  assumes "build_site E = Inr s1"
      and "distinct (map relative_path (md_files E))"
  shows "\<exists>s2. build_site (E\<lparr>manifest_file := manifest_file_after s1, site_tree := t\<rparr>) = Inr s2
           \<and> new_manifest s2 = new_manifest s1
           \<and> manifest_file_after s2 = manifest_file_after s1
           \<and> calls s2 = [SaveManifest (new_manifest s1)]
           \<and> tree s2 = t"
proof -
  let ?m0 = "\<lparr>posts = Some [], static_files = Some [], templates = Some []\<rparr>"
  let ?m1 = "manifest_of_sources E"
  let ?E2 = "E\<lparr>manifest_file := manifest_file_after s1, site_tree := t\<rparr>"
  let ?s0 = "check_theme ?E2 ?m1 (initial_state ?E2)"
  have m1: "new_manifest s1 = ?m1" by (rule build_site_manifest [OF assms(1)])
  then have load: "load_manifest (manifest_file_after s1) = ?m1"
    by (simp add: manifest_file_after_def save_manifest_def load_manifest_def)
  have buckets: "old_dependency_bucket ?m1 p = old_dependency_bucket (theme_manifest E ?m0) p" for p
    by (simp add: old_dependency_bucket_def manifest_of_sources_def)
  have theme: "\<not> theme_changed ?s0"
    using theme_manifest_lookup [of _ E ?m0] by (simp add: check_theme_effect buckets)
  have lookup: "\<forall>d \<in> set (md_files ?E2).
      map_of (bucket (posts ?m1)) (relative_path d) = doc_entry ?E2 d"
    using add_entries_lookup [OF assms(2), of _ E "theme_manifest E ?m0"]
    by (auto simp: manifest_of_sources_def bucket_def split: option.splits)
  from unchanged_docs [OF lookup theme] obtain sb where
    docs: "process_docs ?E2 ?m1 (md_files ?E2) ?s0 = Inr sb"
    and same: "calls sb = []" "tree sb = t" "\<not> posts_data_changed sb" "posts_to_build sb = []"
    by (auto simp: check_theme_effect)
  have sb: "new_manifest sb = ?m1"
    using process_docs_effect(1) [OF docs]
    by (simp add: check_theme_effect manifest_of_sources_def)
  have sb_theme: "\<not> theme_changed sb"
    using process_docs_effect(2) [OF docs] theme by simp
  have "source_md_paths sb = relative_path ` set (md_files E)"
    using process_docs_effect(3) [OF docs] by (simp add: check_theme_effect)
  then have "deleted_paths ?m1 sb = []"
    using manifest_of_sources_keys [of E] by (auto simp: deleted_paths_def filter_empty_conv)
  with docs have run: "run_documents ?E2 = Inr sb"
    by (simp add: run_documents_def load)
  have "posts ?m1 \<noteq> None"
    by (simp add: manifest_of_sources_def add_entries_posts_Some)
  then have "\<not> rebuild_lists ?m1 sb"
    using same(3) sb_theme by (simp add: rebuild_lists_def manifest_is_empty_def)
  then have "calls (generate_html ?E2 ?m1 sb) = [SaveManifest ?m1]"
    "tree (generate_html ?E2 ?m1 sb) = t"
    using same sb sb_theme by (simp_all add: generate_html_def posts_to_build_all_def)
  moreover have "build_site ?E2 = Inr (generate_html ?E2 ?m1 sb)"
    using run by (simp add: build_site_def load)
  ultimately show ?thesis
    using sb m1 by (simp add: manifest_file_after_def)
qed

theorem second_build_is_idle_witness:
  "distinct (map relative_path (md_files env_first))
   \<and> (\<exists>s1 s2. build_site env_first = Inr s1
         \<and> build_site (env_first\<lparr>manifest_file := manifest_file_after s1, site_tree := tree s1\<rparr>)
             = Inr s2
         \<and> manifest_file_after s2 = manifest_file_after s1
         \<and> calls s2 = [SaveManifest (new_manifest s1)])"
proof -
  have dist: "distinct (map relative_path (md_files env_first))"
    by (simp add: env_first_def md_files_def sample_defs)
  have "\<not> isl (build_site env_first)" by code_simp
  then obtain s1 where s1: "build_site env_first = Inr s1"
    by (cases "build_site env_first") auto
  from second_build_is_idle [OF s1 dist, of "tree s1"] s1 dist show ?thesis by blast
qed

section \<open>Where the code departs from the claims\<close>

text \<open>
  The examples below start from what a first build of the two sample documents leaves:
  the manifest with the entries of \<open>a\<close> and \<open>b\<close>, and an output tree that has the two
  post pages and nothing at \<open>posts/a.html\<close> and \<open>posts/b.html\<close>.
\<close>

lemma first_build_leaves_sample:
  "(case build_site env_first of
      Inl e \<Rightarrow> False
    | Inr s \<Rightarrow>
        new_manifest s
          = sample_manifest ''c0de'' [(''markdown/a.md'', entry_a), (''markdown/b.md'', entry_b)]
        \<and> map (tree s)
              [[''_site'', ''posts'', ''a''], [''_site'', ''posts'', ''a'', ''index.html''],
               [''_site'', ''posts'', ''b''], [''_site'', ''posts'', ''b'', ''index.html''],
               [''_site'', ''posts'', ''a.html''], [''_site'', ''posts'', ''b.html'']]
            = map tree_ab
              [[''_site'', ''posts'', ''a''], [''_site'', ''posts'', ''a'', ''index.html''],
               [''_site'', ''posts'', ''b''], [''_site'', ''posts'', ''b'', ''index.html''],
               [''_site'', ''posts'', ''a.html''], [''_site'', ''posts'', ''b.html'']])"
  by code_simp

subsection \<open>A new document and the flag for the list pages\<close>

text \<open>
  When the loop body sets \<open>posts_data_changed\<close>: for an ordinary post that does not need
  a full build and whose metadata differ from the old entry, and never otherwise. A
  document that needs a full build (a new one, or one with new bytes) leaves the flag as
  it is.
\<close>

lemma process_doc_flag:
  assumes "process_doc E old_manifest d s = Inr s'"
  shows "posts_data_changed s'
           = (posts_data_changed s
              \<or> (\<not> is_404_page E d \<and> m_hidden (doc_metadata d) \<noteq> Some (PBool True)
                  \<and> \<not> needs_full_build (get_full_content_hash E (md_file d))
                        (old_item_of old_manifest (relative_path d))
                  \<and> (\<exists>dt t. m_date (doc_metadata d) = Some dt \<and> m_title (doc_metadata d) = Some t
                        \<and> metadata_changed E
                             (new_manifest_data E (get_full_content_hash E (md_file d))
                                (make_post d dt t (post_link_of (doc_slug E d)))
                                (post_link_of (doc_slug E d)))
                             (old_item_of old_manifest (relative_path d)))))"
  using assms
  by (auto simp: process_doc_def process_post_def Let_def
      dest: special_page_frame(3)
      split: if_splits sum.splits option.splits pyval.splits)

lemma full_build_leaves_flag:
  assumes "process_doc E old_manifest d s = Inr s'"
      and "needs_full_build (get_full_content_hash E (md_file d))
             (old_item_of old_manifest (relative_path d))"
  shows "posts_data_changed s' = posts_data_changed s"
  using process_doc_flag [OF assms(1)] assms(2) by simp

text \<open>
  Claim C3 says that the aggregate pages are rebuilt whenever a document's metadata
  changed or a document was added or removed or the theme changed, and in particular when
  a document is added on a later build. In \<open>process_post\<close> the flag
  \<open>posts_data_changed\<close> is set only under \<open>not needs_full_build\<close>, and a new document
  always needs a full build. In the build \<open>env_added\<close> the old manifest is not empty and
  knows \<open>markdown/a.md\<close>, which is unchanged; \<open>markdown/b.md\<close> is new. The build renders
  the page of \<open>b\<close> and saves the manifest; the condition for the list pages is false and
  no aggregate page is generated.
\<close>

theorem added_document_leaves_lists_stale:
  "map_of (bucket (posts (load_manifest (manifest_file env_added)))) (relative_path doc_b) = None
   \<and> \<not> manifest_is_empty (load_manifest (manifest_file env_added))
   \<and> (case build_site env_added of
         Inl e \<Rightarrow> False
       | Inr s \<Rightarrow>
           \<not> posts_data_changed s
           \<and> \<not> rebuild_lists (load_manifest (manifest_file env_added)) s
           \<and> calls s
               = [GeneratePostPage (make_post doc_b 738887 (PStr ''b'') ''posts/b.html''),
                  SaveManifest (new_manifest s)])"
  by code_simp

text \<open>
  The same holds for a change of metadata that comes with new bytes of the file, which
  is how front matter changes: in \<open>env_renamed\<close> the link of \<open>markdown/a.md\<close> changes
  and the list pages are not rebuilt.
\<close>

lemma changed_metadata_leaves_lists_stale:
  "(case build_site env_renamed of
      Inl e \<Rightarrow> False
    | Inr s \<Rightarrow>
        dget (old_item_of (load_manifest (manifest_file env_renamed)) ''markdown/a.md'') ''link''
          = PStr ''posts/a.html''
        \<and> map_of (bucket (posts (new_manifest s))) ''markdown/a.md''
            = Some
                [(''hash'', PStr ''hash 2 of markdown/a.md''),
                 (''title'', PStr ''a''), (''date_str'', PStr ''2024-01-01''),
                 (''link'', PStr ''posts/a2.html''), (''tags_list'', PList []),
                 (''hidden'', PBool False), (''status'', PStr ''published'')]
        \<and> \<not> rebuild_lists (load_manifest (manifest_file env_renamed)) s)"
  by code_simp

subsection \<open>The output of a deleted document\<close>

text \<open>
  What holds for every path of the old manifest that is no longer a source: the flag for
  the list pages is set, the saved manifest has no entry for the path, and for a sentinel
  link (\<open>hidden\<close>, \<open>404.html\<close>) nothing is removed.
\<close>

lemma deleted_source_sets_flag:
  assumes "build_site E = Inr s"
      and "k \<in> fst ` set (bucket (posts (load_manifest (manifest_file E))))"
      and "k \<notin> relative_path ` set (md_files E)"
  shows "rebuild_lists (load_manifest (manifest_file E)) s"
    and "k \<notin> fst ` set (bucket (posts (new_manifest s)))"
proof -
  let ?old = "load_manifest (manifest_file E)"
  from assms(1) obtain s1 where run: "run_documents E = Inr s1"
    and s: "s = generate_html E ?old s1"
    by (rule build_site_cases)
  from run obtain sa where
    docs: "process_docs E ?old (md_files E) (check_theme E ?old (initial_state E)) = Inr sa"
    and del: "delete_paths ?old (deleted_paths ?old sa) sa = Inr s1"
    by (rule run_documents_cases)
  have "source_md_paths sa = relative_path ` set (md_files E)"
    using process_docs_effect(3) [OF docs] by (simp add: check_theme_effect)
  with assms(2,3) have "k \<in> set (deleted_paths ?old sa)"
    by (simp add: deleted_paths_def)
  then have "deleted_paths ?old sa \<noteq> []" by auto
  with delete_paths_effect(3) [OF del] have "posts_data_changed s1" by simp
  then show "rebuild_lists ?old s" by (simp add: s rebuild_lists_def)
  from run_documents_effect(3) [OF run] assms(3)
  show "k \<notin> fst ` set (bucket (posts (new_manifest s)))" by (auto simp: s)
qed

lemma sentinel_link_not_cleaned:
  assumes "dget (old_item_of old_manifest k) ''link'' = PStr ''hidden''
           \<or> dget (old_item_of old_manifest k) ''link'' = PStr ''404.html''"
  shows "delete_path old_manifest k s = Inr (s\<lparr>posts_data_changed := True\<rparr>)"
  using assms by (auto simp: delete_path_def cleanable_link_def Let_def)

text \<open>
  The path that the clean-up looks at and the directory that \<open>generate_post_page\<close>
  writes, for the link that the build makes from a slug without slashes: the first keeps
  the suffix \<open>.html\<close>, the second drops it. So on a tree that has nothing under the first
  name, neither clean-up changes anything.
\<close>

lemma split_on_no_sep: "c \<notin> set xs \<Longrightarrow> split_on c xs = [xs]"
  by (induction xs) auto

lemma split_on_append_sep: "c \<notin> set xs \<Longrightarrow> split_on c (xs @ c # ys) = xs # split_on c ys"
  by (induction xs) auto

lemma replace_backslash_id: "CHR 0x5C \<notin> set xs \<Longrightarrow> replace_backslash xs = xs"
  by (induction xs) (auto simp: replace_backslash_def)

lemma endswith_append: "endswith (xs @ suf) suf"
  by (simp add: endswith_def)

lemma post_link_of_plain:
  assumes "CHR ''/'' \<notin> set slug" and "CHR 0x5C \<notin> set slug"
  shows "post_link_of slug = ''posts/'' @ slug @ ''.html''"
proof -
  have "\<not> startswith (slug @ ''.html'') ''/''"
    using assms(1) by (cases slug) (auto simp: startswith_def)
  then have "path_join POSTS_DIR_NAME [slug @ ''.html''] = ''posts/'' @ slug @ ''.html''"
    by (simp add: path_join_def join2_def POSTS_DIR_NAME_def endswith_def)
  moreover have "replace_backslash (''posts/'' @ slug @ ''.html'') = ''posts/'' @ slug @ ''.html''"
    using assms(2) by (intro replace_backslash_id) simp
  ultimately show ?thesis by (simp add: post_link_of_def)
qed

lemma strip_slash_plain:
  assumes "xs \<noteq> []" and "hd xs \<noteq> CHR ''/''" and "last xs \<noteq> CHR ''/''"
  shows "strip_slash xs = xs"
proof -
  from assms obtain x xs' where xs: "xs = x # xs'" "x \<noteq> CHR ''/''" by (cases xs) auto
  from assms obtain ys y where ys: "xs = ys @ [y]" "y \<noteq> CHR ''/''"
    by (metis append_butlast_last_id)
  have "dropWhile (\<lambda>c. c = CHR ''/'') xs = xs" using xs by simp
  moreover have "dropWhile (\<lambda>c. c = CHR ''/'') (rev xs) = rev xs" using ys by simp
  ultimately show ?thesis by (simp add: strip_slash_def)
qed

lemma cleanup_path_of_link:
  assumes "CHR ''/'' \<notin> set slug" and "CHR 0x5C \<notin> set slug"
  shows "parts (path_join BUILD_DIR (split_on (CHR ''/'') (strip_slash (post_link_of slug))))
           = [''_site'', ''posts'', slug @ ''.html'']"
proof -
  have link: "post_link_of slug = ''posts/'' @ slug @ ''.html''"
    by (rule post_link_of_plain [OF assms])
  have "strip_slash (''posts/'' @ slug @ ''.html'') = ''posts/'' @ slug @ ''.html''"
    by (rule strip_slash_plain) simp_all
  moreover have sp: "split_on (CHR ''/'') (''posts/'' @ slug @ ''.html'') = [''posts'', slug @ ''.html'']"
    using split_on_append_sep [of "CHR ''/''" "''posts''" "slug @ ''.html''"]
      split_on_no_sep [of "CHR ''/''" "slug @ ''.html''"] assms(1) by simp
  moreover have "\<not> startswith (slug @ ''.html'') ''/''"
    using assms(1) by (cases slug) (auto simp: startswith_def)
  then have "path_join BUILD_DIR [''posts'', slug @ ''.html''] = ''_site/posts/'' @ slug @ ''.html''"
    by (simp add: path_join_def join2_def BUILD_DIR_def endswith_def startswith_def)
  moreover have "split_on (CHR ''/'') (''_site/posts/'' @ slug @ ''.html'')
                   = [''_site'', ''posts'', slug @ ''.html'']"
    using split_on_append_sep [of "CHR ''/''" "''_site''" "''posts/'' @ slug @ ''.html''"] sp
    by simp
  ultimately show ?thesis by (simp add: link parts_def)
qed

lemma lower_append [simp]: "lower (xs @ ys) = lower xs @ lower ys"
  by (simp add: lower_def)

lemma output_path_of_link:
  assumes "CHR ''/'' \<notin> set slug" and "CHR 0x5C \<notin> set slug" and "slug \<noteq> []"
  shows "parts (post_output_dir (post_link_of slug)) = [''_site'', ''posts'', slug]"
proof -
  have link: "post_link_of slug = ''posts/'' @ slug @ ''.html''"
    by (rule post_link_of_plain [OF assms(1,2)])
  have low: "lower (''posts/'' @ slug @ ''.html'') = lower (''posts/'' @ slug) @ ''.html''"
    by (simp add: lower_def lower_char_def)
  have "endswith (lower (''posts/'' @ slug @ ''.html'')) ''.html''"
    unfolding low by (rule endswith_append)
  moreover have "take (length (''posts/'' @ slug @ ''.html'') - 5) (''posts/'' @ slug @ ''.html'')
                   = ''posts/'' @ slug"
    by simp
  moreover have "strip_slash (''posts/'' @ slug) = ''posts/'' @ slug"
    using assms(1,3) by (intro strip_slash_plain) (auto simp: last_append dest: last_in_set)
  moreover have "path_join BUILD_DIR [''posts/'' @ slug] = ''_site/posts/'' @ slug"
    by (simp add: path_join_def join2_def BUILD_DIR_def endswith_def startswith_def)
  moreover have "split_on (CHR ''/'') (''_site/posts/'' @ slug) = [''_site'', ''posts'', slug]"
    using split_on_append_sep [of "CHR ''/''" "''_site''" "''posts/'' @ slug"]
      split_on_append_sep [of "CHR ''/''" "''posts''" slug]
      split_on_no_sep [of "CHR ''/''" slug] assms(1) by simp
  ultimately show ?thesis using assms(3) by (simp add: link post_output_dir_def parts_def Let_def)
qed

lemma cleanup_misses_generated_page:
  assumes "CHR ''/'' \<notin> set slug" and "CHR 0x5C \<notin> set slug"
      and "tree s [''_site'', ''posts'', slug @ ''.html''] = None"
  shows "cleanup_deleted (post_link_of slug) s = s"
    and "cleanup_old_post (post_link_of slug) s = s"
proof -
  have link: "post_link_of slug = ''posts/'' @ slug @ ''.html''"
    by (rule post_link_of_plain [OF assms(1,2)])
  have strip: "strip_slash (''posts/'' @ slug @ ''.html'') = ''posts/'' @ slug @ ''.html''"
    by (rule strip_slash_plain) simp_all
  have dir: "\<not> path_exists (tree s)
      (path_join BUILD_DIR (split_on (CHR ''/'') (strip_slash (post_link_of slug))))"
    using cleanup_path_of_link [OF assms(1,2)] assms(3) by (simp add: path_exists_def)
  have "path_join BUILD_DIR [''posts/'' @ slug @ ''.html''] = ''_site/posts/'' @ slug @ ''.html''"
    by (simp add: path_join_def join2_def BUILD_DIR_def endswith_def startswith_def)
  moreover have "split_on (CHR ''/'') (''_site/posts/'' @ slug @ ''.html'')
                   = [''_site'', ''posts'', slug @ ''.html'']"
    using split_on_append_sep [of "CHR ''/''" "''_site''" "''posts/'' @ slug @ ''.html''"]
      split_on_append_sep [of "CHR ''/''" "''posts''" "slug @ ''.html''"]
      split_on_no_sep [of "CHR ''/''" "slug @ ''.html''"] assms(1) by simp
  ultimately have nofile: "\<not> path_exists (tree s)
      (path_join BUILD_DIR [strip_slash (post_link_of slug)])"
    unfolding link strip using assms(3) by (simp add: path_exists_def parts_def)
  show "cleanup_deleted (post_link_of slug) s = s"
    using dir nofile by (simp add: cleanup_deleted_def Let_def)
  show "cleanup_old_post (post_link_of slug) s = s"
    using dir by (simp add: cleanup_old_post_def Let_def)
qed

lemma delete_path_keeps_generated_page:
  assumes "dget (old_item_of old_manifest k) ''link'' = PStr (post_link_of slug)"
      and "CHR ''/'' \<notin> set slug" and "CHR 0x5C \<notin> set slug"
      and "tree s [''_site'', ''posts'', slug @ ''.html''] = None"
      and "delete_path old_manifest k s = Inr s'"
  shows "tree s' = tree s \<and> calls s' = calls s"
  using assms(5) cleanup_misses_generated_page(1) [OF assms(2,3), of "s\<lparr>posts_data_changed := True\<rparr>"]
    assms(1,4)
  by (auto simp: delete_path_def Let_def split: if_splits)

text \<open>
  Claim C6 says that for a deleted source with a real link the output location is
  removed. \<open>generate_post_page\<close> writes the page of the link \<open>posts/b.html\<close> to
  \<open>_site/posts/b/index.html\<close>: it drops \<open>.html\<close> from the link. The clean-up joins the
  build directory with the link as it is and looks at \<open>_site/posts/b.html\<close>. In the
  build \<open>env_deleted\<close> the source \<open>markdown/b.md\<close> is gone and its page is in the output
  tree; the build removes nothing, and the directory and its page are still there.
\<close>

theorem deleted_document_output_remains:
  "map_of (bucket (posts (load_manifest (manifest_file env_deleted)))) ''markdown/b.md''
     = Some entry_b
   \<and> dget entry_b ''link'' = PStr ''posts/b.html''
   \<and> ''markdown/b.md'' \<notin> relative_path ` set (md_files env_deleted)
   \<and> post_output_dir ''posts/b.html'' = ''_site/posts/b''
   \<and> path_join BUILD_DIR (split_on (CHR ''/'') (strip_slash ''posts/b.html''))
       = ''_site/posts/b.html''
   \<and> site_tree env_deleted [''_site'', ''posts'', ''b'', ''index.html''] = Some File
   \<and> (case build_site env_deleted of
         Inl e \<Rightarrow> False
       | Inr s \<Rightarrow>
           filter is_removal (calls s) = []
           \<and> tree s [''_site'', ''posts'', ''b''] = Some Dir
           \<and> tree s [''_site'', ''posts'', ''b'', ''index.html''] = Some File)"
  by code_simp

text \<open>The clean-up does remove a page of the older layout, a file named as the link.\<close>

lemma cleanup_deleted_removes_link_file:
  "tree (cleanup_deleted ''posts/b.html''
           ((initial_state env_first)
              \<lparr>tree := sample_tree [[''_site''], [''_site'', ''posts'']]
                                   [[''_site'', ''posts'', ''b.html'']]\<rparr>))
     [''_site'', ''posts'', ''b.html''] = None"
  by code_simp

subsection \<open>The output of a document whose slug has changed\<close>

text \<open>
  Claim C7 says that when the link of a surviving document changes, the old output
  location is deleted before the new page is written. The clean-up in the loop body forms
  its path as above. In the build \<open>env_renamed\<close> the slug of \<open>markdown/a.md\<close> has changed
  from \<open>a\<close> to \<open>a2\<close>; the old entry has the link \<open>posts/a.html\<close>, whose page is at
  \<open>_site/posts/a/index.html\<close>. The build removes nothing: after it the old page is still
  there, next to the new one.
\<close>

theorem renamed_document_output_remains:
  "dget (old_item_of (load_manifest (manifest_file env_renamed)) ''markdown/a.md'') ''link''
     = PStr ''posts/a.html''
   \<and> post_output_dir ''posts/a.html'' = ''_site/posts/a''
   \<and> path_join BUILD_DIR (split_on (CHR ''/'') (strip_slash ''posts/a.html''))
       = ''_site/posts/a.html''
   \<and> site_tree env_renamed [''_site'', ''posts'', ''a'', ''index.html''] = Some File
   \<and> (case build_site env_renamed of
         Inl e \<Rightarrow> False
       | Inr s \<Rightarrow>
           map link (post_pages (calls s)) = [Some ''posts/a2.html'']
           \<and> filter is_removal (calls s) = []
           \<and> tree s [''_site'', ''posts'', ''a''] = Some Dir
           \<and> tree s [''_site'', ''posts'', ''a'', ''index.html''] = Some File
           \<and> tree s [''_site'', ''posts'', ''a2'', ''index.html''] = Some File)"
  by code_simp

text \<open>For the two sentinel links the loop body does not enter the clean-up.\<close>

lemma sentinel_old_link_not_cleaned:
  "\<not> cleanable_link (PStr ''hidden'') \<and> \<not> cleanable_link (PStr ''404.html'')
   \<and> \<not> cleanable_link PNone"
  by (simp add: cleanable_link_def)

end
